theory Spec2Isabelle
  imports Complex_Main "HOL-Library.Multiset"
begin

section \<open>Python exceptions\<close>

text \<open>
  Every raise of the modelled code is a value of this type; a function that can raise
  returns \<open>py_error + 'a\<close> with \<open>Inl\<close> for the exception.
\<close>

datatype py_error =
  AttributeError | KeyError | ZeroDivisionError | AssertionError
  | ValueError | IndexError | RuntimeError

definition bind_res :: "'e + 'a \<Rightarrow> ('a \<Rightarrow> 'e + 'b) \<Rightarrow> 'e + 'b" where
  "bind_res m f = (case m of Inl e \<Rightarrow> Inl e | Inr v \<Rightarrow> f v)"

section \<open>engine/trainer.py: the Trainer\<close>

text \<open>
  The attributes of a \<open>Trainer\<close> object. \<open>trainer_state\<close> stands for the model, optimizer,
  scheduler and scaler objects (their state dictionaries are what a checkpoint stores).
  \<open>csv_file\<close> and \<open>validate\<close> are \<open>None\<close> while the object has no attribute of that
  name: the class body defines no method \<open>validate\<close> and has no base class other than
  \<open>object\<close>, so \<open>self.validate\<close> resolves only when a caller or a subclass supplies it.
  A supplied \<open>validate\<close> reads the trainer's objects and returns the metrics dictionary
  or raises.
\<close>

record 's Trainer =
  trainer_state :: 's
  save_dir :: string
  grad_clip_val :: real
  log_dir :: string
  train_log :: string
  csv_file :: "string option"
  validate :: "('s \<Rightarrow> py_error + (string \<rightharpoonup> real)) option"
  best_map :: real
  best_epoch :: int

definition path_join :: "string \<Rightarrow> string \<Rightarrow> string" where
  "path_join a b = (if a = [] then b else if last a = CHR ''/'' then a @ b else a @ ''/'' @ b)"

text \<open>
  \<open>Trainer.__init__\<close>: every attribute the constructor assigns. It assigns no
  \<open>csv_file\<close> and no \<open>validate\<close>.
\<close>

definition Trainer_init :: "'s \<Rightarrow> string \<Rightarrow> real \<Rightarrow> 's Trainer" where
  "Trainer_init st dir clip =
     \<lparr> trainer_state = st, save_dir = dir, grad_clip_val = clip,
       log_dir = path_join dir ''logs'',
       train_log = path_join (path_join dir ''logs'') ''train_log.txt'',
       csv_file = None, validate = None, best_map = 0, best_epoch = 0 \<rparr>"

subsection \<open>Checkpoints\<close>

text \<open>
  The two files \<open>save_checkpoint\<close> writes under \<open>save_dir\<close>:
  \<open>checkpoint_epoch_{epoch}.pth\<close> and \<open>best_model.pth\<close>.
\<close>

datatype ckpt_path = CheckpointEpoch int | BestModel

record 's checkpoint =
  ck_epoch :: int
  ck_state :: 's
  ck_best_map :: real

text \<open>
  \<open>save_checkpoint\<close> returns the \<open>torch.save\<close> calls it makes, in order.
\<close>

definition save_checkpoint :: "'s Trainer \<Rightarrow> int \<Rightarrow> bool \<Rightarrow> (ckpt_path \<times> 's checkpoint) list" where
  "save_checkpoint tr epoch is_best =
     (let ck = \<lparr> ck_epoch = epoch, ck_state = trainer_state tr, ck_best_map = best_map tr \<rparr>
      in (CheckpointEpoch epoch, ck) # (if is_best then [(BestModel, ck)] else []))"

text \<open>
  The statements of \<open>validate_and_save\<close> after its first line, on the metrics dictionary
  \<open>val_metrics\<close> that \<open>self.validate()\<close> returned. The result is the updated trainer, the
  \<open>torch.save\<close> calls made, and the metrics.
\<close>

definition save_after_validation ::
  "'s Trainer \<Rightarrow> int \<Rightarrow> (string \<rightharpoonup> real)
    \<Rightarrow> py_error + ('s Trainer \<times> (ckpt_path \<times> 's checkpoint) list \<times> (string \<rightharpoonup> real))" where
  "save_after_validation tr epoch val_metrics =
     (case val_metrics ''map50'' of
        None \<Rightarrow> Inl KeyError
      | Some m \<Rightarrow>
          let tr1 = (if m > best_map tr then tr\<lparr> best_map := m, best_epoch := epoch \<rparr> else tr);
              w1 = (if m > best_map tr then save_checkpoint tr1 epoch True else []);
              w2 = (if epoch mod 10 = 0 then save_checkpoint tr1 epoch False else [])
          in Inr (tr1, w1 @ w2, val_metrics))"

text \<open>
  \<open>validate_and_save\<close>: the first line is the call \<open>self.validate()\<close>, which raises
  \<open>AttributeError\<close> when the trainer has no such attribute and otherwise whatever the
  supplied method raises.
\<close>

definition validate_and_save ::
  "'s Trainer \<Rightarrow> int
    \<Rightarrow> py_error + ('s Trainer \<times> (ckpt_path \<times> 's checkpoint) list \<times> (string \<rightharpoonup> real))" where
  "validate_and_save tr epoch =
     (case validate tr of
        None \<Rightarrow> Inl AttributeError
      | Some v \<Rightarrow>
          (case v (trainer_state tr) of
             Inl e \<Rightarrow> Inl e
           | Inr val_metrics \<Rightarrow> save_after_validation tr epoch val_metrics))"

text \<open>
  A training run calls \<open>validate_and_save\<close> once per epoch. \<open>validation_run\<close> threads a
  trainer through these calls when the validation of the listed epochs reports the
  listed \<open>map50\<close> values, and collects every \<open>torch.save\<close> call.
\<close>

fun validation_run ::
  "'s Trainer \<Rightarrow> (int \<times> real) list \<Rightarrow> py_error + ('s Trainer \<times> (ckpt_path \<times> 's checkpoint) list)" where
  "validation_run tr [] = Inr (tr, [])"
| "validation_run tr ((epoch, m) # rest) =
     (case validate_and_save (tr\<lparr> validate := Some (\<lambda>_. Inr [''map50'' \<mapsto> m]) \<rparr>) epoch of
        Inl e \<Rightarrow> Inl e
      | Inr (tr1, w, _) \<Rightarrow>
          (case validation_run tr1 rest of
             Inl e \<Rightarrow> Inl e
           | Inr (tr2, w') \<Rightarrow> Inr (tr2, w @ w')))"

definition best_saves :: "(ckpt_path \<times> 's checkpoint) list \<Rightarrow> int list" where
  "best_saves ws = map (\<lambda>(pth, ck). ck_epoch ck) (filter (\<lambda>(pth, ck). pth = BestModel) ws)"

text \<open>
  The running maximum of the spec: the epochs whose value strictly exceeds the best
  value seen before them, starting from \<open>b\<close>.
\<close>

fun strict_records :: "real \<Rightarrow> (int \<times> real) list \<Rightarrow> int list" where
  "strict_records b [] = []"
| "strict_records b ((epoch, m) # rest) =
     (if m > b then epoch # strict_records m rest else strict_records b rest)"

subsection \<open>The training step\<close>

text \<open>
  What \<open>train_one_epoch\<close> calls and this repository does not define: \<open>loss_fn\<close> is
  everything from clearing the gradients and moving the batch to the device up to the
  return of the loss function (the four losses of the batch, or an exception),
  \<open>backward\<close> the scaled backward pass on a value, then gradient clipping, the optimizer
  step with the scaler update, and the scheduler (\<open>None\<close> when
  \<open>self.scheduler is None\<close>).
\<close>

record ('s, 'b) train_env =
  loss_fn :: "'s \<Rightarrow> 'b \<Rightarrow> py_error + (real \<times> real \<times> real \<times> real)"
  backward :: "'s \<Rightarrow> real \<Rightarrow> py_error + 's"
  clip_grad_norm :: "real \<Rightarrow> 's \<Rightarrow> py_error + 's"
  optimizer_step :: "'s \<Rightarrow> py_error + 's"
  scheduler_step :: "('s \<Rightarrow> py_error + 's) option"

text \<open>
  One call of the backward pass: the four losses the loss function returned for the
  batch, and the value handed to \<open>self.scaler.scale(...).backward()\<close>.
\<close>

record backward_call =
  call_losses :: "real \<times> real \<times> real \<times> real"
  call_arg :: real

record epoch_metrics =
  total_loss :: real
  box_loss :: real
  dfl_loss :: real
  cls_loss :: real
  quat_loss :: real

text \<open>
  The body of the loop over batches. The result is the state after the iteration, the
  backward calls it made, and either the exception it raised (printed and raised again
  by the handler) or the losses and total of the batch.
\<close>

definition train_batch ::
  "('s, 'b) train_env \<Rightarrow> real \<Rightarrow> 's \<Rightarrow> 'b
     \<Rightarrow> 's \<times> backward_call list \<times> (py_error + backward_call)" where
  "train_batch env clip st batch =
     (case loss_fn env st batch of
        Inl e \<Rightarrow> (st, [], Inl e)
      | Inr (box, dfl, cls, quat) \<Rightarrow>
          let total_l = box + 0.5 * dfl + cls + 0.1 * quat;
              call = \<lparr> call_losses = (box, dfl, cls, quat), call_arg = total_l \<rparr>
          in (case backward env st total_l of
                Inl e \<Rightarrow> (st, [call], Inl e)
              | Inr st1 \<Rightarrow>
                  (case (if clip > 0 then clip_grad_norm env clip st1 else Inr st1) of
                     Inl e \<Rightarrow> (st1, [call], Inl e)
                   | Inr st2 \<Rightarrow>
                       (case optimizer_step env st2 of
                          Inl e \<Rightarrow> (st2, [call], Inl e)
                        | Inr st3 \<Rightarrow>
                            (case (case scheduler_step env of None \<Rightarrow> Inr st3 | Some f \<Rightarrow> f st3) of
                               Inl e \<Rightarrow> (st3, [call], Inl e)
                             | Inr st4 \<Rightarrow> (st4, [call], Inr call))))))"

definition add_metrics :: "epoch_metrics \<Rightarrow> backward_call \<Rightarrow> epoch_metrics" where
  "add_metrics acc call =
     (case call_losses call of (box, dfl, cls, quat) \<Rightarrow>
        \<lparr> total_loss = total_loss acc + call_arg call, box_loss = box_loss acc + box,
          dfl_loss = dfl_loss acc + dfl, cls_loss = cls_loss acc + cls,
          quat_loss = quat_loss acc + quat \<rparr>)"

fun train_batches ::
  "('s, 'b) train_env \<Rightarrow> real \<Rightarrow> 's \<Rightarrow> 'b list \<Rightarrow> epoch_metrics
     \<Rightarrow> 's \<times> backward_call list \<times> (py_error + epoch_metrics)" where
  "train_batches env clip st [] acc = (st, [], Inr acc)"
| "train_batches env clip st (batch # rest) acc =
     (case train_batch env clip st batch of
        (st1, calls, Inl e) \<Rightarrow> (st1, calls, Inl e)
      | (st1, calls, Inr call) \<Rightarrow>
          (case train_batches env clip st1 rest (add_metrics acc call) of
             (st2, calls', r) \<Rightarrow> (st2, calls @ calls', r)))"

text \<open>
  \<open>train_one_epoch\<close> over the batches of the training data loader. The averages divide
  by \<open>len(self.train_dataloader)\<close>, which raises for an empty loader.
\<close>

definition train_one_epoch ::
  "('s, 'b) train_env \<Rightarrow> 's Trainer \<Rightarrow> 'b list
     \<Rightarrow> 's Trainer \<times> backward_call list \<times> (py_error + epoch_metrics)" where
  "train_one_epoch env tr batches =
     (case train_batches env (grad_clip_val tr) (trainer_state tr) batches
             \<lparr> total_loss = 0, box_loss = 0, dfl_loss = 0, cls_loss = 0, quat_loss = 0 \<rparr> of
        (st, calls, Inl e) \<Rightarrow> (tr\<lparr> trainer_state := st \<rparr>, calls, Inl e)
      | (st, calls, Inr acc) \<Rightarrow>
          (tr\<lparr> trainer_state := st \<rparr>, calls,
           if length batches = 0 then Inl ZeroDivisionError
           else let n = real (length batches) in
             Inr \<lparr> total_loss = total_loss acc / n, box_loss = box_loss acc / n,
                   dfl_loss = dfl_loss acc / n, cls_loss = cls_loss acc / n,
                   quat_loss = quat_loss acc / n \<rparr>))"

definition weighted_total :: "backward_call \<Rightarrow> bool" where
  "weighted_total call =
     (case call_losses call of (box, dfl, cls, quat) \<Rightarrow>
        call_arg call = 1 * box + 0.5 * dfl + 1 * cls + 0.1 * quat)"

text \<open>
  The weighted sum of the four losses of a batch that the spec gives for the total loss.
\<close>

definition weighted_sum :: "real \<times> real \<times> real \<times> real \<Rightarrow> real" where
  "weighted_sum ls = (case ls of (box, dfl, cls, quat) \<Rightarrow> 1 * box + 0.5 * dfl + 1 * cls + 0.1 * quat)"

text \<open>
  An environment that observes the backward pass: its state is the list of the values
  \<open>backward\<close> has received, oldest first. The loss function may read that state;
  clipping and the optimizer step leave it alone, and there is no scheduler.
\<close>

definition recording_env ::
  "(real list \<Rightarrow> 'b \<Rightarrow> real \<times> real \<times> real \<times> real) \<Rightarrow> (real list, 'b) train_env" where
  "recording_env losses =
     \<lparr> loss_fn = (\<lambda>st batch. Inr (losses st batch)),
       backward = (\<lambda>st v. Inr (st @ [v])),
       clip_grad_norm = (\<lambda>max_norm st. Inr st),
       optimizer_step = (\<lambda>st. Inr st),
       scheduler_step = None \<rparr>"

text \<open>
  What the observing environment has to hold after the batches when every backward call
  receives the weighted sum of the losses of its batch.
\<close>

fun expected_backward_args ::
  "(real list \<Rightarrow> 'b \<Rightarrow> real \<times> real \<times> real \<times> real) \<Rightarrow> real list \<Rightarrow> 'b list \<Rightarrow> real list" where
  "expected_backward_args losses st [] = st"
| "expected_backward_args losses st (batch # rest) =
     expected_backward_args losses (st @ [weighted_sum (losses st batch)]) rest"

subsection \<open>The CSV training log\<close>

datatype csv_field = CsvStr string | CsvInt int | CsvFloat real

text \<open>
  The files of the log directory: a path holds the rows written to it. \<open>_initialize_csv\<close>
  opens \<open>self.csv_file\<close> for writing and \<open>_log_to_csv\<close> for appending; reading the
  attribute is the first thing either does.
\<close>

type_synonym csv_files = "string \<rightharpoonup> csv_field list list"

definition initialize_csv :: "'s Trainer \<Rightarrow> csv_files \<Rightarrow> py_error + csv_files" where
  "initialize_csv tr files =
     (case csv_file tr of
        None \<Rightarrow> Inl AttributeError
      | Some f \<Rightarrow>
          Inr (files(f \<mapsto> [map CsvStr [''epoch'', ''batch'', ''total_loss'', ''box_loss'',
                                          ''dfl_loss'', ''quat_loss'']])))"

definition log_to_csv ::
  "'s Trainer \<Rightarrow> csv_files \<Rightarrow> int \<Rightarrow> int \<Rightarrow> real \<Rightarrow> real \<Rightarrow> real \<Rightarrow> real \<Rightarrow> py_error + csv_files" where
  "log_to_csv tr files epoch batch total_l box dfl quat =
     (case csv_file tr of
        None \<Rightarrow> Inl AttributeError
      | Some f \<Rightarrow>
          Inr (files(f \<mapsto> (case files f of None \<Rightarrow> [] | Some rows \<Rightarrow> rows)
                 @ [[CsvInt epoch, CsvInt batch, CsvFloat total_l, CsvFloat box, CsvFloat dfl,
                     CsvFloat quat]])))"

section \<open>QResNet34: the dropout-rate schedule\<close>

text \<open>
  A dropout slot of a residual block is a \<open>QuaternionDropout\<close> with its probability, or an
  \<open>nn.Identity\<close> (chosen when the rate is not positive), on which assigning \<open>p\<close> only
  stores an attribute.
\<close>

datatype dropout_module = QuaternionDropoutModule real | IdentityModule "real option"

fun set_p :: "real \<Rightarrow> dropout_module \<Rightarrow> dropout_module" where
  "set_p r (QuaternionDropoutModule _) = QuaternionDropoutModule r"
| "set_p r (IdentityModule _) = IdentityModule (Some r)"

fun get_p :: "dropout_module \<Rightarrow> real option" where
  "get_p (QuaternionDropoutModule r) = Some r"
| "get_p (IdentityModule a) = a"

record QuaternionBasicBlock =
  dropout1 :: dropout_module
  dropout2 :: dropout_module

definition QuaternionBasicBlock_init :: "real \<Rightarrow> QuaternionBasicBlock" where
  "QuaternionBasicBlock_init dropout_rate =
     \<lparr> dropout1 = (if dropout_rate > 0 then QuaternionDropoutModule dropout_rate else IdentityModule None),
       dropout2 = (if dropout_rate > 0 then QuaternionDropoutModule dropout_rate else IdentityModule None) \<rparr>"

record QResNet34 =
  initial_rates :: "real list"
  increment :: real
  current_rates :: "real list"
  conv2_x :: "QuaternionBasicBlock list"
  conv3_x :: "QuaternionBasicBlock list"
  conv4_x :: "QuaternionBasicBlock list"
  conv5_x :: "QuaternionBasicBlock list"
  classifier_dropout_p :: real

text \<open>
  \<open>_make_layer\<close>: \<open>num_blocks\<close> blocks, every one built with the stage's current rate.
\<close>

definition make_layer :: "real list \<Rightarrow> nat \<Rightarrow> nat \<Rightarrow> QuaternionBasicBlock list" where
  "make_layer rates num_blocks dropout_idx =
     QuaternionBasicBlock_init (rates ! dropout_idx)
       # map (\<lambda>_. QuaternionBasicBlock_init (rates ! dropout_idx)) [1..<num_blocks]"

definition QResNet34_init :: QResNet34 where
  "QResNet34_init =
     (let initial = [0.1, 0.15, 0.2, 0.2, 0.25] in
      \<lparr> initial_rates = initial, increment = 0.05, current_rates = initial,
        conv2_x = make_layer initial 3 0, conv3_x = make_layer initial 4 1,
        conv4_x = make_layer initial 6 2, conv5_x = make_layer initial 3 3,
        classifier_dropout_p = 0.3 \<rparr>)"

text \<open>
  \<open>_update_block_dropout\<close>: reading \<open>self.current_rates[rate_idx]\<close> raises when the
  index is out of range, which happens only if the loop body runs.
\<close>

definition update_block_dropout ::
  "real list \<Rightarrow> QuaternionBasicBlock list \<Rightarrow> nat \<Rightarrow> py_error + QuaternionBasicBlock list" where
  "update_block_dropout rates block rate_idx =
     (if block = [] then Inr []
      else if rate_idx < length rates then
        Inr (map (\<lambda>layer. layer\<lparr> dropout1 := set_p (rates ! rate_idx) (dropout1 layer),
                                  dropout2 := set_p (rates ! rate_idx) (dropout2 layer) \<rparr>) block)
      else Inl IndexError)"

definition update_dropout_rates :: "QResNet34 \<Rightarrow> py_error + QResNet34" where
  "update_dropout_rates m =
     (let rates = map (\<lambda>r. min 0.5 (r + increment m)) (current_rates m) in
      bind_res (update_block_dropout rates (conv2_x m) 0) (\<lambda>b2.
      bind_res (update_block_dropout rates (conv3_x m) 1) (\<lambda>b3.
      bind_res (update_block_dropout rates (conv4_x m) 2) (\<lambda>b4.
      bind_res (update_block_dropout rates (conv5_x m) 3) (\<lambda>b5.
        if 4 < length rates then
          Inr (m\<lparr> current_rates := rates, conv2_x := b2, conv3_x := b3, conv4_x := b4,
                  conv5_x := b5, classifier_dropout_p := rates ! 4 \<rparr>)
        else Inl IndexError)))))"

fun update_dropout_rates_n :: "nat \<Rightarrow> QResNet34 \<Rightarrow> py_error + QResNet34" where
  "update_dropout_rates_n 0 m = Inr m"
| "update_dropout_rates_n (Suc n) m = bind_res (update_dropout_rates_n n m) update_dropout_rates"

text \<open>
  A stage of \<open>n\<close> blocks whose two dropout slots all hold the rate at position
  \<open>idx\<close> of the schedule.
\<close>

definition stage_synced :: "real list \<Rightarrow> nat \<Rightarrow> QuaternionBasicBlock list \<Rightarrow> nat \<Rightarrow> bool" where
  "stage_synced rates idx block n =
     (length block = n
      \<and> list_all (\<lambda>layer. get_p (dropout1 layer) = Some (rates ! idx)
                         \<and> get_p (dropout2 layer) = Some (rates ! idx)) block)"

fun is_QuaternionDropout :: "dropout_module \<Rightarrow> bool" where
  "is_QuaternionDropout (QuaternionDropoutModule _) = True"
| "is_QuaternionDropout (IdentityModule _) = False"

text \<open>
  A stage of \<open>n\<close> blocks whose two dropout slots are all \<open>QuaternionDropout\<close> modules
  with the rate at position \<open>idx\<close> of the schedule.
\<close>

definition stage_dropout :: "real list \<Rightarrow> nat \<Rightarrow> QuaternionBasicBlock list \<Rightarrow> nat \<Rightarrow> bool" where
  "stage_dropout rates idx block n =
     (length block = n
      \<and> list_all (\<lambda>layer. dropout1 layer = QuaternionDropoutModule (rates ! idx)
                         \<and> dropout2 layer = QuaternionDropoutModule (rates ! idx)) block)"

text \<open>
  The states of a model built by the constructor and updated any number of times: five
  rates, the configured increment, no rate above the clamp, and the four stages with
  their 3, 4, 6 and 3 blocks, every slot a \<open>QuaternionDropout\<close>.
\<close>

definition schedule_inv :: "QResNet34 \<Rightarrow> bool" where
  "schedule_inv m = (length (current_rates m) = 5 \<and> increment m = 0.05
      \<and> list_all (\<lambda>r. r \<le> 0.5) (current_rates m)
      \<and> length (conv2_x m) = 3 \<and> length (conv3_x m) = 4
      \<and> length (conv4_x m) = 6 \<and> length (conv5_x m) = 3
      \<and> list_all (\<lambda>layer. is_QuaternionDropout (dropout1 layer) \<and> is_QuaternionDropout (dropout2 layer))
           (conv2_x m @ conv3_x m @ conv4_x m @ conv5_x m))"

section \<open>Tensors\<close>

text \<open>
  A tensor is its shape and its elements in row-major (contiguous) order. Every tensor
  of the model is stored contiguously, so \<open>view\<close> and \<open>reshape\<close> only replace the shape.
  Elements are real numbers; the rounding and the special values of floating point are
  not modelled.
\<close>

record 'a tensor =
  shape :: "nat list"
  data :: "'a list"

definition numel :: "nat list \<Rightarrow> nat" where
  "numel shp = prod_list shp"

definition wf_tensor :: "'a tensor \<Rightarrow> bool" where
  "wf_tensor t = (length (data t) = numel (shape t))"

text \<open>The row-major offset of an index.\<close>

fun ravel :: "nat list \<Rightarrow> nat list \<Rightarrow> nat" where
  "ravel (s # shp) (i # idx) = i * numel shp + ravel shp idx"
| "ravel _ _ = 0"

definition valid_index :: "nat list \<Rightarrow> nat list \<Rightarrow> bool" where
  "valid_index shp idx = list_all2 (\<lambda>i s. i < s) idx shp"

fun all_indices :: "nat list \<Rightarrow> nat list list" where
  "all_indices [] = [[]]"
| "all_indices (s # shp) = concat (map (\<lambda>i. map ((#) i) (all_indices shp)) [0..<s])"

definition get :: "'a tensor \<Rightarrow> nat list \<Rightarrow> 'a" where
  "get t idx = data t ! ravel (shape t) idx"

text \<open>The tensor of a shape whose element at every index is given by a function.\<close>

definition tabulate :: "nat list \<Rightarrow> (nat list \<Rightarrow> 'a) \<Rightarrow> 'a tensor" where
  "tabulate shp f = \<lparr> shape = shp, data = map f (all_indices shp) \<rparr>"

definition map_tensor :: "('a \<Rightarrow> 'b) \<Rightarrow> 'a tensor \<Rightarrow> 'b tensor" where
  "map_tensor f t = \<lparr> shape = shape t, data = map f (data t) \<rparr>"

text \<open>An elementwise binary operation on two tensors of one shape.\<close>

definition zip_tensor :: "('a \<Rightarrow> 'b \<Rightarrow> 'c) \<Rightarrow> 'a tensor \<Rightarrow> 'b tensor \<Rightarrow> py_error + 'c tensor" where
  "zip_tensor f a b =
     (if shape a = shape b then Inr \<lparr> shape = shape a, data = map2 f (data a) (data b) \<rparr>
      else Inl RuntimeError)"

fun index_of :: "nat list \<Rightarrow> nat \<Rightarrow> nat" where
  "index_of [] d = 0"
| "index_of (x # xs) d = (if x = d then 0 else Suc (index_of xs d))"

text \<open>
  \<open>Tensor.permute(*dims)\<close>: dimension \<open>k\<close> of the result is dimension \<open>dims ! k\<close> of
  the argument.
\<close>

definition permute :: "nat list \<Rightarrow> 'a tensor \<Rightarrow> py_error + 'a tensor" where
  "permute dims t =
     (if length dims = length (shape t) \<and> distinct dims
         \<and> list_all (\<lambda>d. d < length (shape t)) dims
      then Inr (tabulate (map (\<lambda>d. shape t ! d) dims)
                  (\<lambda>idx. get t (map (\<lambda>d. idx ! index_of dims d) [0..<length dims])))
      else Inl RuntimeError)"

definition reshape :: "nat list \<Rightarrow> 'a tensor \<Rightarrow> py_error + 'a tensor" where
  "reshape shp t = (if numel shp = numel (shape t) then Inr (t\<lparr> shape := shp \<rparr>) else Inl RuntimeError)"

definition view :: "nat list \<Rightarrow> 'a tensor \<Rightarrow> py_error + 'a tensor" where
  "view shp t = (if numel shp = numel (shape t) then Inr (t\<lparr> shape := shp \<rparr>) else Inl RuntimeError)"

text \<open>
  \<open>x.select(axis, k)\<close>, the slice \<open>x[:, :, k]\<close> for \<open>axis = 2\<close>: that dimension is
  dropped.
\<close>

definition select :: "nat \<Rightarrow> nat \<Rightarrow> 'a tensor \<Rightarrow> py_error + 'a tensor" where
  "select axis k t =
     (if axis < length (shape t) \<and> k < shape t ! axis
      then Inr (tabulate (take axis (shape t) @ drop (Suc axis) (shape t))
                  (\<lambda>idx. get t (take axis idx @ [k] @ drop axis idx)))
      else Inl IndexError)"

definition unsqueeze :: "nat \<Rightarrow> 'a tensor \<Rightarrow> py_error + 'a tensor" where
  "unsqueeze axis t =
     (if axis \<le> length (shape t)
      then Inr (t\<lparr> shape := take axis (shape t) @ [1] @ drop axis (shape t) \<rparr>)
      else Inl IndexError)"

text \<open>
  \<open>Tensor.expand(*sizes)\<close> for a tensor with as many dimensions as sizes: a dimension
  of size 1 is repeated, any other must already have the size asked for.
\<close>

definition expand :: "nat list \<Rightarrow> 'a tensor \<Rightarrow> py_error + 'a tensor" where
  "expand shp t =
     (if list_all2 (\<lambda>n s. s = n \<or> s = 1) shp (shape t)
      then Inr (tabulate shp (\<lambda>idx. get t (map2 (\<lambda>i s. if s = 1 then 0 else i) idx (shape t))))
      else Inl RuntimeError)"

text \<open>
  \<open>t.expand_as(other)\<close> is \<open>t.expand(other.size())\<close>: dimensions are matched from the
  last one backwards, the dimensions \<open>other\<close> has in excess are new leading dimensions of
  \<open>t\<close>, and a tensor with more dimensions than \<open>other\<close> is refused.
\<close>

definition expand_as :: "'a tensor \<Rightarrow> 'b tensor \<Rightarrow> py_error + 'a tensor" where
  "expand_as t other =
     (if length (shape t) \<le> length (shape other)
      then expand (shape other)
             (t\<lparr> shape := replicate (length (shape other) - length (shape t)) 1 @ shape t \<rparr>)
      else Inl RuntimeError)"

section \<open>Quaternion dropout\<close>

record QuaternionDropout =
  training :: bool
  p :: real

text \<open>
  \<open>torch.rand(*size)\<close>: the draws of one call, one for every position of the result.
  The generator is outside the model, so the draws are the function \<open>u\<close>.
\<close>

definition torch_rand :: "(nat list \<Rightarrow> real) \<Rightarrow> nat list \<Rightarrow> real tensor" where
  "torch_rand u sizes = tabulate sizes u"

text \<open>
  \<open>QuaternionDropout.forward\<close>. Unpacking \<open>x.shape\<close> into five names raises
  \<open>ValueError\<close> for a tensor of any other rank. The product with the mask reads a
  kept position as 1 and a dropped one as 0. For \<open>p = 1\<close> the division is by zero,
  which gives infinities and NaN in floating point and is outside the model.
\<close>

definition QuaternionDropout_forward ::
  "QuaternionDropout \<Rightarrow> (nat list \<Rightarrow> real) \<Rightarrow> real tensor \<Rightarrow> py_error + real tensor" where
  "QuaternionDropout_forward m u x =
     (if \<not> training m \<or> p m = 0 then Inr x
      else
        (case shape x of
           [B, C, Q, H, W] \<Rightarrow>
             if Q \<noteq> 4 then Inl AssertionError
             else
               let mask = map_tensor (\<lambda>v. v > p m) (torch_rand u [B, C, H, W]) in
               bind_res (unsqueeze 2 mask) (\<lambda>mask1.
               bind_res (expand [B, C, Q, H, W] mask1) (\<lambda>mask5.
               bind_res (zip_tensor (\<lambda>v keep. v * of_bool keep) x mask5) (\<lambda>xm.
                 Inr (map_tensor (\<lambda>v. v / (1 - p m)) xm))))
         | _ \<Rightarrow> Inl ValueError))"

section \<open>Quaternion pooling\<close>

subsection \<open>The 2D pooling operators of torch\<close>

text \<open>
  The spatial plane of sample \<open>n\<close> and channel \<open>c\<close> of a tensor of shape (N, C, H, W),
  as its rows.
\<close>

definition plane :: "'a tensor \<Rightarrow> nat \<Rightarrow> nat \<Rightarrow> 'a list list" where
  "plane t n c =
     (case shape t of
        [N, C, H, W] \<Rightarrow> map (\<lambda>h. map (\<lambda>w. get t [n, c, h, w]) [0..<W]) [0..<H]
      | _ \<Rightarrow> [])"

text \<open>
  A 2D pooling operator works on every plane of a batch on its own: \<open>out_size\<close> checks
  the sizes (C, H, W) and gives the output height and width, or rejects them with a
  \<open>RuntimeError\<close>, and \<open>window\<close> computes the output element at a position from the
  plane. Only input of shape (N, C, H, W) is modelled.
\<close>

definition pool2d ::
  "(nat \<Rightarrow> nat \<Rightarrow> nat \<Rightarrow> (nat \<times> nat) option) \<Rightarrow> ('a list list \<Rightarrow> nat \<Rightarrow> nat \<Rightarrow> 'b)
     \<Rightarrow> 'a tensor \<Rightarrow> py_error + 'b tensor" where
  "pool2d out_size window t =
     (case shape t of
        [N, C, H, W] \<Rightarrow>
          (case out_size C H W of
             None \<Rightarrow> Inl RuntimeError
           | Some (H_out, W_out) \<Rightarrow>
               Inr (tabulate [N, C, H_out, W_out]
                     (\<lambda>idx. window (plane t (idx ! 0) (idx ! 1)) (idx ! 2) (idx ! 3))))
      | _ \<Rightarrow> Inl RuntimeError)"

text \<open>
  The output length of a pooled dimension of length \<open>n\<close> for kernel \<open>k\<close>, stride \<open>s\<close>
  and padding \<open>pad\<close> (no dilation, floor mode); torch rejects an output smaller than 1.
\<close>

definition pool_out :: "nat \<Rightarrow> nat \<Rightarrow> nat \<Rightarrow> nat \<Rightarrow> nat option" where
  "pool_out n k s pad = (if n + 2 * pad < k then None else Some ((n + 2 * pad - k) div s + 1))"

definition pool_out_size :: "nat \<Rightarrow> nat \<Rightarrow> nat \<Rightarrow> nat \<Rightarrow> nat \<Rightarrow> nat \<Rightarrow> (nat \<times> nat) option" where
  "pool_out_size k s pad C H W =
     (if k = 0 \<or> s = 0 \<or> pad > k div 2 \<or> C = 0 \<or> H = 0 \<or> W = 0 then None
      else
        (case (pool_out H k s pad, pool_out W k s pad) of
           (Some H_out, Some W_out) \<Rightarrow> Some (H_out, W_out)
         | _ \<Rightarrow> None))"

definition avg_window :: "nat \<Rightarrow> nat \<Rightarrow> real list list \<Rightarrow> nat \<Rightarrow> nat \<Rightarrow> real" where
  "avg_window k s pl i j =
     sum_list (concat (map (\<lambda>di. map (\<lambda>dj. pl ! (i * s + di) ! (j * s + dj)) [0..<k]) [0..<k]))
       / real (k * k)"

text \<open>
  \<open>F.avg_pool2d(input, kernel_size, stride)\<close> without padding; the stride defaults to
  the kernel size.
\<close>

definition avg_pool2d :: "real tensor \<Rightarrow> nat \<Rightarrow> nat option \<Rightarrow> py_error + real tensor" where
  "avg_pool2d t k stride_opt =
     (let s = (case stride_opt of None \<Rightarrow> k | Some s \<Rightarrow> s)
      in pool2d (pool_out_size k s 0) (avg_window k s) t)"

text \<open>
  For output size (1, 1) torch takes the mean of every plane and checks no size (the
  mean of an empty plane is NaN, which the model cannot represent); for any other
  output size it rejects an empty non-batch dimension.
\<close>

definition adaptive_out_size :: "nat \<times> nat \<Rightarrow> nat \<Rightarrow> nat \<Rightarrow> nat \<Rightarrow> (nat \<times> nat) option" where
  "adaptive_out_size output_size C H W =
     (if output_size = (1, 1) then Some (1, 1)
      else if C = 0 \<or> H = 0 \<or> W = 0 then None
      else Some output_size)"

definition adaptive_avg_window :: "nat \<times> nat \<Rightarrow> real list list \<Rightarrow> nat \<Rightarrow> nat \<Rightarrow> real" where
  "adaptive_avg_window output_size pl i j =
     (let H = length pl; W = (case pl of [] \<Rightarrow> 0 | row # _ \<Rightarrow> length row);
          rows = [i * H div fst output_size ..< ((i + 1) * H + fst output_size - 1) div fst output_size];
          cols = [j * W div snd output_size ..< ((j + 1) * W + snd output_size - 1) div snd output_size];
          vals = concat (map (\<lambda>r. map (\<lambda>c. pl ! r ! c) cols) rows)
      in sum_list vals / real (length vals))"

text \<open>\<open>F.adaptive_avg_pool2d(input, output_size)\<close>.\<close>

definition adaptive_avg_pool2d :: "real tensor \<Rightarrow> nat \<times> nat \<Rightarrow> py_error + real tensor" where
  "adaptive_avg_pool2d t output_size =
     pool2d (adaptive_out_size output_size) (adaptive_avg_window output_size) t"

record MaxPool2d =
  pool_kernel_size :: nat
  pool_stride :: nat
  pool_padding :: nat

text \<open>
  The maximum over the part of the window that lies inside the plane (the padding never
  wins). An accepted input has no window that lies wholly in the padding.
\<close>

definition max_window :: "nat \<Rightarrow> nat \<Rightarrow> nat \<Rightarrow> real list list \<Rightarrow> nat \<Rightarrow> nat \<Rightarrow> real" where
  "max_window k s pad pl i j =
     (let H = length pl; W = (case pl of [] \<Rightarrow> 0 | row # _ \<Rightarrow> length row);
          rows = filter (\<lambda>r. pad \<le> r \<and> r < H + pad) [i * s ..< i * s + k];
          cols = filter (\<lambda>c. pad \<le> c \<and> c < W + pad) [j * s ..< j * s + k];
          vals = concat (map (\<lambda>r. map (\<lambda>c. pl ! (r - pad) ! (c - pad)) cols) rows)
      in (case vals of [] \<Rightarrow> 0 | v # vs \<Rightarrow> fold max vs v))"

definition MaxPool2d_call :: "MaxPool2d \<Rightarrow> real tensor \<Rightarrow> py_error + real tensor" where
  "MaxPool2d_call mp t =
     pool2d (pool_out_size (pool_kernel_size mp) (pool_stride mp) (pool_padding mp))
       (max_window (pool_kernel_size mp) (pool_stride mp) (pool_padding mp)) t"

subsection \<open>QuaternionAvgPool and QuaternionMaxPool\<close>

record QuaternionAvgPool =
  kernel_size :: "nat option"
  stride :: "nat option"

text \<open>
  The torch pooling call a \<open>QuaternionAvgPool\<close> is configured with: global average
  pooling when no kernel size is set, strided average pooling otherwise.
\<close>

definition QuaternionAvgPool_pool :: "QuaternionAvgPool \<Rightarrow> real tensor \<Rightarrow> py_error + real tensor" where
  "QuaternionAvgPool_pool m t =
     (case kernel_size m of
        None \<Rightarrow> adaptive_avg_pool2d t (1, 1)
      | Some k \<Rightarrow> avg_pool2d t k (stride m))"

text \<open>
  \<open>QuaternionAvgPool.forward\<close>: the component axis is moved next to the batch axis and
  merged with it, the planes are pooled, and the result is split and moved back.
  \<open>H_out, W_out = pooled.shape[-2:]\<close> reads the last two sizes.
\<close>

definition QuaternionAvgPool_forward :: "QuaternionAvgPool \<Rightarrow> real tensor \<Rightarrow> py_error + real tensor" where
  "QuaternionAvgPool_forward m x =
     (case shape x of
        [B, C, Q, H, W] \<Rightarrow>
          if Q \<noteq> 4 then Inl AssertionError
          else
            bind_res (permute [0, 2, 1, 3, 4] x) (\<lambda>xp.
            bind_res (reshape [B * Q, C, H, W] xp) (\<lambda>x_reshaped.
            bind_res (case kernel_size m of
                        None \<Rightarrow> adaptive_avg_pool2d x_reshaped (1, 1)
                      | Some k \<Rightarrow> avg_pool2d x_reshaped k (stride m)) (\<lambda>pooled.
              (case rev (shape pooled) of
                 W_out # H_out # _ \<Rightarrow>
                   bind_res (view [B, Q, C, H_out, W_out] pooled) (\<lambda>v.
                     permute [0, 2, 1, 3, 4] v)
               | _ \<Rightarrow> Inl ValueError))))
      | _ \<Rightarrow> Inl ValueError)"

record QuaternionMaxPool =
  pool :: MaxPool2d

definition QuaternionMaxPool_init :: "nat \<Rightarrow> nat \<Rightarrow> nat \<Rightarrow> QuaternionMaxPool" where
  "QuaternionMaxPool_init k s pad =
     \<lparr> pool = \<lparr> pool_kernel_size = k, pool_stride = s, pool_padding = pad \<rparr> \<rparr>"

definition QuaternionMaxPool_forward :: "QuaternionMaxPool \<Rightarrow> real tensor \<Rightarrow> py_error + real tensor" where
  "QuaternionMaxPool_forward m x =
     (case shape x of
        [B, C, Q, H, W] \<Rightarrow>
          if Q \<noteq> 4 then Inl AssertionError
          else
            bind_res (permute [0, 2, 1, 3, 4] x) (\<lambda>xp.
            bind_res (reshape [B * Q, C, H, W] xp) (\<lambda>x_reshaped.
            bind_res (MaxPool2d_call (pool m) x_reshaped) (\<lambda>pooled.
              (case rev (shape pooled) of
                 W_out # H_out # _ \<Rightarrow>
                   bind_res (view [B, Q, C, H_out, W_out] pooled) (\<lambda>v.
                     permute [0, 2, 1, 3, 4] v)
               | _ \<Rightarrow> Inl ValueError))))
      | _ \<Rightarrow> Inl ValueError)"

text \<open>
  The two forward functions differ only in the pooling call; \<open>pool_per_component\<close> is
  their common form, with the pooling call as a parameter.
\<close>

definition pool_per_component ::
  "(real tensor \<Rightarrow> py_error + real tensor) \<Rightarrow> real tensor \<Rightarrow> py_error + real tensor" where
  "pool_per_component pool_fn x =
     (case shape x of
        [B, C, Q, H, W] \<Rightarrow>
          if Q \<noteq> 4 then Inl AssertionError
          else
            bind_res (permute [0, 2, 1, 3, 4] x) (\<lambda>xp.
            bind_res (reshape [B * Q, C, H, W] xp) (\<lambda>x_reshaped.
            bind_res (pool_fn x_reshaped) (\<lambda>pooled.
              (case rev (shape pooled) of
                 W_out # H_out # _ \<Rightarrow>
                   bind_res (view [B, Q, C, H_out, W_out] pooled) (\<lambda>v.
                     permute [0, 2, 1, 3, 4] v)
               | _ \<Rightarrow> Inl ValueError))))
      | _ \<Rightarrow> Inl ValueError)"

text \<open>
  The sizes (C, H, W) of the planes that the pooling call of a module accepts.
\<close>

definition QuaternionAvgPool_accepts :: "QuaternionAvgPool \<Rightarrow> nat \<Rightarrow> nat \<Rightarrow> nat \<Rightarrow> bool" where
  "QuaternionAvgPool_accepts m C H W =
     (case kernel_size m of
        None \<Rightarrow> adaptive_out_size (1, 1) C H W \<noteq> None
      | Some k \<Rightarrow> pool_out_size k (case stride m of None \<Rightarrow> k | Some s \<Rightarrow> s) 0 C H W \<noteq> None)"

definition MaxPool2d_accepts :: "MaxPool2d \<Rightarrow> nat \<Rightarrow> nat \<Rightarrow> nat \<Rightarrow> bool" where
  "MaxPool2d_accepts mp C H W =
     (pool_out_size (pool_kernel_size mp) (pool_stride mp) (pool_padding mp) C H W \<noteq> None)"

section \<open>The classifier output of the models\<close>

definition NUM_CLASSES :: nat where
  "NUM_CLASSES = 10"

text \<open>
  The last three statements of \<open>QResNet34.forward\<close> (and of
  \<open>QuaternionCIFAR10.forward\<close>), applied to the output \<open>x\<close> of the classifier head:
  \<open>x.view(batch_size, NUM_CLASSES, 4)[:, :, 0]\<close>, with the module constant and not the
  \<open>num_classes\<close> of the constructor.
\<close>

definition QResNet34_real_components :: "real tensor \<Rightarrow> py_error + real tensor" where
  "QResNet34_real_components x =
     (case shape x of
        [] \<Rightarrow> Inl IndexError
      | batch_size # _ \<Rightarrow>
          bind_res (view [batch_size, NUM_CLASSES, 4] x) (\<lambda>v. select 2 0 v))"

text \<open>
  \<open>view(a, -1, c)\<close>: the middle size is inferred from the number of elements, which
  must be a multiple of \<open>a * c\<close>; it cannot be inferred when \<open>a * c = 0\<close>.
\<close>

definition view_infer :: "nat \<Rightarrow> nat \<Rightarrow> 'a tensor \<Rightarrow> py_error + 'a tensor" where
  "view_infer a c t =
     (if a * c = 0 \<or> numel (shape t) mod (a * c) \<noteq> 0 then Inl RuntimeError
      else view [a, numel (shape t) div (a * c), c] t)"

text \<open>
  The last three statements of \<open>QuaternionDenseNet.forward\<close>:
  \<open>out.view(batch_size, -1, 4)[:, :, 0]\<close>.
\<close>

definition QuaternionDenseNet_real_components :: "real tensor \<Rightarrow> py_error + real tensor" where
  "QuaternionDenseNet_real_components out =
     (case shape out of
        [] \<Rightarrow> Inl IndexError
      | batch_size # _ \<Rightarrow> bind_res (view_infer batch_size 4 out) (\<lambda>v. select 2 0 v))"

section \<open>The multi-augmentation dataset\<close>

text \<open>Indexing a Python list: a negative index counts from the end.\<close>

definition py_getitem :: "'a list \<Rightarrow> int \<Rightarrow> py_error + 'a" where
  "py_getitem xs i =
     (let n = int (length xs); j = (if i < 0 then n + i else i)
      in if 0 \<le> j \<and> j < n then Inr (xs ! nat j) else Inl IndexError)"

text \<open>
  \<open>numpy.random.RandomState.shuffle\<close> on a Python list: for \<open>i\<close> from \<open>n - 1\<close> down to
  1, \<open>x[i]\<close> is exchanged with \<open>x[j]\<close> for a \<open>j\<close> drawn from 0 to \<open>i\<close>. The draws of
  the seeded generator are the function \<open>draw\<close>, by \<open>i\<close>.
\<close>

definition swap :: "nat \<Rightarrow> nat \<Rightarrow> 'a list \<Rightarrow> 'a list" where
  "swap i j xs = xs[i := xs ! j, j := xs ! i]"

fun shuffle_down :: "(nat \<Rightarrow> nat) \<Rightarrow> nat \<Rightarrow> 'a list \<Rightarrow> 'a list" where
  "shuffle_down draw 0 xs = xs"
| "shuffle_down draw (Suc i) xs = shuffle_down draw i (swap (Suc i) (draw (Suc i)) xs)"

definition RandomState_shuffle :: "(nat \<Rightarrow> nat) \<Rightarrow> 'a list \<Rightarrow> 'a list" where
  "RandomState_shuffle draw xs = shuffle_down draw (length xs - 1) xs"

record ('img, 'lbl) MultiAugmentDataset =
  dataset :: "('img \<times> 'lbl) list"
  augmentations_per_image :: nat
  train :: bool
  indices :: "nat list option"

text \<open>
  \<open>MultiAugmentDataset.__init__\<close>. \<open>rng seed\<close> are the draws of
  \<open>np.random.RandomState(seed)\<close>. The attribute \<open>indices\<close> exists only for a training
  dataset.
\<close>

definition MultiAugmentDataset_init ::
  "(int \<Rightarrow> nat \<Rightarrow> nat) \<Rightarrow> ('img \<times> 'lbl) list \<Rightarrow> nat \<Rightarrow> bool \<Rightarrow> int
     \<Rightarrow> ('img, 'lbl) MultiAugmentDataset" where
  "MultiAugmentDataset_init rng base augs is_train seed =
     \<lparr> dataset = base, augmentations_per_image = augs, train = is_train,
       indices = (if is_train
                  then Some (RandomState_shuffle (rng seed)
                               (concat (map (\<lambda>idx. replicate augs idx) [0..<length base])))
                  else None) \<rparr>"

definition MultiAugmentDataset_len :: "('img, 'lbl) MultiAugmentDataset \<Rightarrow> nat" where
  "MultiAugmentDataset_len ds =
     (if train ds then length (dataset ds) * augmentations_per_image ds else length (dataset ds))"

text \<open>
  What the transforms call and this repository does not define: seeding the global
  torch generator, the random transforms of torchvision (each reads and advances the
  generator state), the two deterministic ones, and \<open>torch.randint(0, high, (1,))\<close>.
\<close>

record ('g, 'img) torch_env =
  manual_seed :: "int \<Rightarrow> 'g"
  RandomCrop :: "'g \<Rightarrow> 'img \<Rightarrow> 'img \<times> 'g"
  RandomHorizontalFlip :: "'g \<Rightarrow> 'img \<Rightarrow> 'img \<times> 'g"
  AutoAugment :: "'g \<Rightarrow> 'img \<Rightarrow> 'img \<times> 'g"
  ToTensor :: "'img \<Rightarrow> real tensor"
  Normalize :: "real tensor \<Rightarrow> real tensor"
  randint :: "'g \<Rightarrow> nat \<Rightarrow> nat \<times> 'g"

text \<open>
  One hole of \<open>Cutout\<close>: the square around a drawn centre, clamped to the image, is
  set to 0 in the mask. \<open>torch.randint\<close> raises for an empty range.
\<close>

definition cutout_hole ::
  "('g, 'img) torch_env \<Rightarrow> nat \<Rightarrow> nat \<Rightarrow> nat \<Rightarrow> 'g \<Rightarrow> real tensor \<Rightarrow> py_error + (real tensor \<times> 'g)" where
  "cutout_hole env len h w g mask_t =
     (if h = 0 \<or> w = 0 then Inl RuntimeError
      else
        let (y, g1) = randint env g h;
            (x, g2) = randint env g1 w;
            y1 = min (y - len div 2) h;
            y2 = min (y + len div 2) h;
            x1 = min (x - len div 2) w;
            x2 = min (x + len div 2) w
        in Inr (tabulate [h, w]
                  (\<lambda>idx. if y1 \<le> idx ! 0 \<and> idx ! 0 < y2 \<and> x1 \<le> idx ! 1 \<and> idx ! 1 < x2
                         then 0 else get mask_t idx), g2))"

fun cutout_holes ::
  "('g, 'img) torch_env \<Rightarrow> nat \<Rightarrow> nat \<Rightarrow> nat \<Rightarrow> nat \<Rightarrow> 'g \<Rightarrow> real tensor \<Rightarrow> py_error + (real tensor \<times> 'g)" where
  "cutout_holes env 0 len h w g mask_t = Inr (mask_t, g)"
| "cutout_holes env (Suc n) len h w g mask_t =
     (case cutout_hole env len h w g mask_t of
        Inl e \<Rightarrow> Inl e
      | Inr (mask1, g1) \<Rightarrow> cutout_holes env n len h w g1 mask1)"

text \<open>
  \<open>Cutout.__call__\<close> on an image tensor: \<open>h\<close> and \<open>w\<close> are its sizes at dimensions 1 and
  2 (an \<open>IndexError\<close> for a tensor without them), the mask of shape (h, w) is expanded
  to the shape of the image and multiplied into it. The generator state is read first
  and written back after the mask is applied, so the call returns the state it was
  given.
\<close>

definition Cutout_call ::
  "('g, 'img) torch_env \<Rightarrow> nat \<Rightarrow> nat \<Rightarrow> 'g \<Rightarrow> real tensor \<Rightarrow> py_error + (real tensor \<times> 'g)" where
  "Cutout_call env n_holes len g img =
     (case shape img of
        _ # h # w # _ \<Rightarrow>
          let state = g in
          (case cutout_holes env n_holes len h w g (tabulate [h, w] (\<lambda>_. 1)) of
             Inl e \<Rightarrow> Inl e
           | Inr (mask_t, g1) \<Rightarrow>
               bind_res (expand_as mask_t img) (\<lambda>mask3.
               bind_res (zip_tensor (\<lambda>a b. a * b) img mask3) (\<lambda>res. Inr (res, state))))
      | _ \<Rightarrow> Inl IndexError)"

definition weak_transform :: "('g, 'img) torch_env \<Rightarrow> 'g \<Rightarrow> 'img \<Rightarrow> py_error + (real tensor \<times> 'g)" where
  "weak_transform env g img =
     (let (i1, g1) = RandomCrop env g img;
          (i2, g2) = RandomHorizontalFlip env g1 i1
      in Inr (Normalize env (ToTensor env i2), g2))"

definition strong_transform :: "('g, 'img) torch_env \<Rightarrow> 'g \<Rightarrow> 'img \<Rightarrow> py_error + (real tensor \<times> 'g)" where
  "strong_transform env g img =
     (let (i1, g1) = RandomCrop env g img;
          (i2, g2) = RandomHorizontalFlip env g1 i1;
          (i3, g3) = AutoAugment env g2 i2
      in Cutout_call env 1 16 g3 (Normalize env (ToTensor env i3)))"

definition test_transform :: "('g, 'img) torch_env \<Rightarrow> 'img \<Rightarrow> real tensor" where
  "test_transform env img = Normalize env (ToTensor env img)"

datatype policy = Weak | Strong

text \<open>The test \<open>index % self.augmentations_per_image == 0\<close> of \<open>__getitem__\<close>.\<close>

definition augmentation_policy :: "('img, 'lbl) MultiAugmentDataset \<Rightarrow> int \<Rightarrow> policy" where
  "augmentation_policy ds index =
     (if index mod int (augmentations_per_image ds) = 0 then Weak else Strong)"

text \<open>
  \<open>MultiAugmentDataset.__getitem__\<close> called with the global generator in state \<open>g\<close>: the
  sample, and the state the call leaves behind.
\<close>

definition MultiAugmentDataset_getitem ::
  "('g, 'img) torch_env \<Rightarrow> ('img, 'lbl) MultiAugmentDataset \<Rightarrow> 'g \<Rightarrow> int
     \<Rightarrow> py_error + ((real tensor \<times> 'lbl) \<times> 'g)" where
  "MultiAugmentDataset_getitem env ds g index =
     (if train ds then
        (case indices ds of
           None \<Rightarrow> Inl AttributeError
         | Some ind \<Rightarrow>
             bind_res (py_getitem ind index) (\<lambda>real_idx.
             bind_res (py_getitem (dataset ds) (int real_idx)) (\<lambda>(img, label).
               let g0 = manual_seed env index in
               if augmentations_per_image ds = 0 then Inl ZeroDivisionError
               else
                 bind_res (case augmentation_policy ds index of
                             Weak \<Rightarrow> weak_transform env g0 img
                           | Strong \<Rightarrow> strong_transform env g0 img)
                   (\<lambda>(transformed, g1). Inr ((transformed, label), g1)))))
      else
        bind_res (py_getitem (dataset ds) index) (\<lambda>(img, label).
          Inr ((test_transform env img, label), g)))"

text \<open>
  The augmented indices at which a base sample is served, and the policies it receives
  there.
\<close>

definition positions_of :: "('img, 'lbl) MultiAugmentDataset \<Rightarrow> nat \<Rightarrow> nat list" where
  "positions_of ds real_idx =
     (case indices ds of
        None \<Rightarrow> []
      | Some ind \<Rightarrow> filter (\<lambda>i. ind ! i = real_idx) [0..<length ind])"

definition policies_of :: "('img, 'lbl) MultiAugmentDataset \<Rightarrow> nat \<Rightarrow> policy list" where
  "policies_of ds real_idx = map (\<lambda>i. augmentation_policy ds (int i)) (positions_of ds real_idx)"

chapter \<open>Verified properties\<close>

section \<open>Checkpointing after validation\<close>

lemma save_after_validation_step:
  assumes "val_metrics ''map50'' = Some m"
  shows "save_after_validation tr e val_metrics =
     Inr (if m > best_map tr then tr\<lparr> best_map := m, best_epoch := e \<rparr> else tr,
          (let ck = \<lparr> ck_epoch = e, ck_state = trainer_state tr, ck_best_map = max (best_map tr) m \<rparr>
           in (if m > best_map tr then [(CheckpointEpoch e, ck), (BestModel, ck)] else [])
              @ (if e mod 10 = 0 then [(CheckpointEpoch e, ck)] else [])),
          val_metrics)"
  using assms by (simp add: save_after_validation_def save_checkpoint_def Let_def max_def)

text \<open>
  With a \<open>validate\<close> method supplied, \<open>validate_and_save\<close> writes the epoch checkpoint and
  the best-model file exactly when the reported \<open>map50\<close> is strictly above the best value
  so far, and then the epoch checkpoint (once more) exactly when the epoch is a multiple
  of 10.
\<close>

lemma validate_and_save_supplied:
  assumes "validate tr = Some v" and "v (trainer_state tr) = Inr val_metrics"
    and "val_metrics ''map50'' = Some m"
  shows "validate_and_save tr e =
     Inr (if m > best_map tr then tr\<lparr> best_map := m, best_epoch := e \<rparr> else tr,
          (let ck = \<lparr> ck_epoch = e, ck_state = trainer_state tr, ck_best_map = max (best_map tr) m \<rparr>
           in (if m > best_map tr then [(CheckpointEpoch e, ck), (BestModel, ck)] else [])
              @ (if e mod 10 = 0 then [(CheckpointEpoch e, ck)] else [])),
          val_metrics)"
  using save_after_validation_step[where val_metrics = val_metrics and m = m and tr = tr and e = e]
    assms
  by (simp add: validate_and_save_def)

lemma best_saves_append: "best_saves (xs @ ys) = best_saves xs @ best_saves ys"
  by (simp add: best_saves_def)

lemma validation_run_total:
  "\<exists>tr' ws. validation_run tr ems = Inr (tr', ws) \<and> best_saves ws = strict_records (best_map tr) ems
     \<and> best_map tr' = fold (\<lambda>(e, m) b. max b m) ems (best_map tr)"
proof (induction ems arbitrary: tr)
  case Nil
  show ?case by (simp add: best_saves_def)
next
  case (Cons em ems)
  obtain e m where em: "em = (e, m)" by (cases em)
  let ?tr0 = "tr\<lparr> validate := Some (\<lambda>_. Inr [''map50'' \<mapsto> m]) \<rparr>"
  let ?tr1 = "if m > best_map tr then ?tr0\<lparr> best_map := m, best_epoch := e \<rparr> else ?tr0"
  from Cons.IH[of ?tr1] obtain tr2 ws2 where
    r: "validation_run ?tr1 ems = Inr (tr2, ws2)"
    and b: "best_saves ws2 = strict_records (best_map ?tr1) ems"
    and f: "best_map tr2 = fold (\<lambda>(e, m) b. max b m) ems (best_map ?tr1)" by blast
  have st: "validate_and_save ?tr0 e = Inr (?tr1,
          (let ck = \<lparr> ck_epoch = e, ck_state = trainer_state tr, ck_best_map = max (best_map tr) m \<rparr>
           in (if m > best_map tr then [(CheckpointEpoch e, ck), (BestModel, ck)] else [])
              @ (if e mod 10 = 0 then [(CheckpointEpoch e, ck)] else [])),
          [''map50'' \<mapsto> m])"
    using validate_and_save_supplied[where tr = ?tr0 and v = "\<lambda>_. Inr [''map50'' \<mapsto> m]"
        and val_metrics = "[''map50'' \<mapsto> m]" and m = m and e = e]
    by simp
  show ?case
  proof (cases "m > best_map tr")
    case True
    with r b f st show ?thesis
      by (simp add: em best_saves_append Let_def) (simp add: best_saves_def max_def)
  next
    case False
    with r b f st show ?thesis
      by (simp add: em best_saves_append Let_def) (simp add: best_saves_def max_def)
  qed
qed

text \<open>
  Over the sequence 0.10, 0.25, 0.20, 0.30 of epochs 0 to 3, a trainer with a supplied
  \<open>validate\<close> saves a best model at epochs 0, 1 and 3 and at no other.
\<close>

lemma validation_run_scenario:
  "\<exists>tr' ws. validation_run (Trainer_init st dir clip)
                     [(0, 0.10), (1, 0.25), (2, 0.20), (3, 0.30)] = Inr (tr', ws)
           \<and> best_saves ws = [0, 1, 3]"
proof -
  have init: "best_map (Trainer_init st dir clip) = 0"
    by (simp add: Trainer_init_def)
  show ?thesis
    using validation_run_total[of "Trainer_init st dir clip" "[(0, 0.10), (1, 0.25), (2, 0.20), (3, 0.30)]"]
    by (auto simp: init)
qed

lemma validate_and_save_supplied_example:
  "validate_and_save ((Trainer_init () ''runs'' 0.5)\<lparr> validate := Some (\<lambda>_. Inr [''map50'' \<mapsto> 0.25]) \<rparr>) 10 =
       Inr ((Trainer_init () ''runs'' 0.5)\<lparr> validate := Some (\<lambda>_. Inr [''map50'' \<mapsto> 0.25]),
                                               best_map := 0.25, best_epoch := 10 \<rparr>,
            [(CheckpointEpoch 10, \<lparr> ck_epoch = 10, ck_state = (), ck_best_map = 0.25 \<rparr>),
             (BestModel, \<lparr> ck_epoch = 10, ck_state = (), ck_best_map = 0.25 \<rparr>),
             (CheckpointEpoch 10, \<lparr> ck_epoch = 10, ck_state = (), ck_best_map = 0.25 \<rparr>)],
            [''map50'' \<mapsto> 0.25])"
  by (simp add: validate_and_save_def save_after_validation_def save_checkpoint_def
      Trainer_init_def Let_def)

text \<open>
  C4. A trainer built by the constructor has no \<open>validate\<close> attribute, and the first
  statement of \<open>validate_and_save\<close> is \<open>val_metrics = self.validate()\<close>: at every epoch
  the call raises \<open>AttributeError\<close> before \<open>map50\<close> is compared with the best value and
  before any checkpoint is written, so neither the best-model save nor the save at the
  multiples of 10 takes place.
\<close>

theorem validate_and_save_raises_after_init:
  "validate_and_save (Trainer_init st dir clip) epoch = Inl AttributeError"
  by (simp add: validate_and_save_def Trainer_init_def)

section \<open>The total loss of a training step\<close>

lemma train_batch_calls:
  assumes "train_batch env clip st b = (st', calls, r)"
  shows "(\<forall>c \<in> set calls. weighted_total c \<and> loss_fn env st b = Inr (call_losses c))
         \<and> length calls \<le> 1
         \<and> (\<forall>c. r = Inr c \<longrightarrow> calls = [c])"
proof (cases "loss_fn env st b")
  case (Inl e)
  with assms show ?thesis by (auto simp add: train_batch_def)
next
  case (Inr ls)
  obtain box dfl cls quat where ls: "ls = (box, dfl, cls, quat)" by (cases ls) auto
  let ?call = "\<lparr> call_losses = (box, dfl, cls, quat), call_arg = box + 0.5 * dfl + cls + 0.1 * quat \<rparr>"
  have w: "weighted_total ?call" "loss_fn env st b = Inr (call_losses ?call)"
    by (simp_all add: weighted_total_def Inr ls)
  from assms have "calls = [?call] \<and> (\<forall>c. r = Inr c \<longrightarrow> c = ?call)"
    unfolding train_batch_def Inr ls Let_def
    by (auto split: sum.splits option.splits if_splits)
  with w show ?thesis by simp
qed

lemma train_batches_calls:
  assumes "train_batches env clip st bs acc = (st', calls, r)"
  shows "(\<forall>c \<in> set calls. weighted_total c)
         \<and> length calls \<le> length bs
         \<and> (\<forall>i < length calls. \<exists>s. loss_fn env s (bs ! i) = Inr (call_losses (calls ! i)))
         \<and> (\<forall>m. r = Inr m \<longrightarrow> length calls = length bs
                \<and> total_loss m = total_loss acc + sum_list (map call_arg calls))"
  using assms
proof (induction bs arbitrary: st acc st' calls r)
  case Nil
  then show ?case by auto
next
  case (Cons b bs)
  obtain st1 cs1 r1 where tb: "train_batch env clip st b = (st1, cs1, r1)"
    by (cases "train_batch env clip st b") auto
  note h = train_batch_calls[OF tb]
  show ?case
  proof (cases r1)
    case (Inl e)
    with Cons.prems tb have eq: "calls = cs1" "r = Inl e" by simp_all
    have a: "\<forall>c \<in> set cs1. weighted_total c" using h by blast
    have l: "length cs1 \<le> length (b # bs)" using h by simp
    have "\<forall>i<length cs1. \<exists>s. loss_fn env s ((b # bs) ! i) = Inr (call_losses (cs1 ! i))"
    proof (intro allI impI)
      fix i assume "i < length cs1"
      with h have i0: "i = 0" and "cs1 ! i \<in> set cs1" by auto
      with h have "loss_fn env st b = Inr (call_losses (cs1 ! i))" by blast
      with i0 show "\<exists>s. loss_fn env s ((b # bs) ! i) = Inr (call_losses (cs1 ! i))" by auto
    qed
    with a l show ?thesis unfolding eq by simp
  next
    case (Inr c)
    with h have cs1: "cs1 = [c]" by auto
    obtain st2 cs2 r2 where rec: "train_batches env clip st1 bs (add_metrics acc c) = (st2, cs2, r2)"
      by (cases "train_batches env clip st1 bs (add_metrics acc c)") auto
    note ih = Cons.IH[OF rec]
    from Cons.prems tb Inr rec have eq: "calls = c # cs2" "r = r2" by (simp_all add: cs1)
    have c: "weighted_total c" "loss_fn env st b = Inr (call_losses c)" using h cs1 by auto
    have tl: "total_loss (add_metrics acc c) = total_loss acc + call_arg c"
      by (simp add: add_metrics_def split: prod.splits)
    have a: "\<forall>x \<in> set (c # cs2). weighted_total x" using ih c by simp
    have l: "length (c # cs2) \<le> length (b # bs)" using ih by simp
    have n: "\<forall>i<length (c # cs2). \<exists>s. loss_fn env s ((b # bs) ! i) = Inr (call_losses ((c # cs2) ! i))"
    proof (intro allI impI)
      fix i assume i: "i < length (c # cs2)"
      show "\<exists>s. loss_fn env s ((b # bs) ! i) = Inr (call_losses ((c # cs2) ! i))"
      proof (cases i)
        case 0
        with c show ?thesis by auto
      next
        case (Suc j)
        with i have "j < length cs2" by simp
        with ih have "\<exists>s. loss_fn env s (bs ! j) = Inr (call_losses (cs2 ! j))" by blast
        with Suc show ?thesis by simp
      qed
    qed
    have m: "\<forall>m. r2 = Inr m \<longrightarrow> length (c # cs2) = length (b # bs)
                \<and> total_loss m = total_loss acc + sum_list (map call_arg (c # cs2))"
    proof (intro allI impI)
      fix m assume "r2 = Inr m"
      with ih have "length cs2 = length bs
          \<and> total_loss m = total_loss (add_metrics acc c) + sum_list (map call_arg cs2)" by blast
      with tl show "length (c # cs2) = length (b # bs)
                \<and> total_loss m = total_loss acc + sum_list (map call_arg (c # cs2))" by simp
    qed
    from a l n m show ?thesis unfolding eq by blast
  qed
qed

lemma train_batch_backward:
  assumes "loss_fn env st batch = Inr (box, dfl, cls, quat)"
  shows "train_batch env clip st batch =
     (let call = \<lparr> call_losses = (box, dfl, cls, quat),
                   call_arg = 1 * box + 0.5 * dfl + 1 * cls + 0.1 * quat \<rparr>
      in case backward env st (1 * box + 0.5 * dfl + 1 * cls + 0.1 * quat) of
           Inl e \<Rightarrow> (st, [call], Inl e)
         | Inr st1 \<Rightarrow>
             (case (if clip > 0 then clip_grad_norm env clip st1 else Inr st1) of
                Inl e \<Rightarrow> (st1, [call], Inl e)
              | Inr st2 \<Rightarrow>
                  (case optimizer_step env st2 of
                     Inl e \<Rightarrow> (st2, [call], Inl e)
                   | Inr st3 \<Rightarrow>
                       (case (case scheduler_step env of None \<Rightarrow> Inr st3 | Some f \<Rightarrow> f st3) of
                          Inl e \<Rightarrow> (st3, [call], Inl e)
                        | Inr st4 \<Rightarrow> (st4, [call], Inr call)))))"
  unfolding train_batch_def assms by (simp add: Let_def)

lemma train_batch_recording:
  "train_batch (recording_env losses) clip st batch =
     (st @ [weighted_sum (losses st batch)],
      [\<lparr> call_losses = losses st batch, call_arg = weighted_sum (losses st batch) \<rparr>],
      Inr \<lparr> call_losses = losses st batch, call_arg = weighted_sum (losses st batch) \<rparr>)"
  by (cases "losses st batch")
     (simp add: train_batch_def recording_env_def weighted_sum_def Let_def)

lemma train_batches_recording:
  "\<exists>calls m. train_batches (recording_env losses) clip st bs acc =
       (expected_backward_args losses st bs, calls, Inr m) \<and> length calls = length bs"
proof (induction bs arbitrary: st acc)
  case Nil
  show ?case by simp
next
  case (Cons b bs)
  let ?c = "\<lparr> call_losses = losses st b, call_arg = weighted_sum (losses st b) \<rparr>"
  from Cons.IH[of "st @ [weighted_sum (losses st b)]" "add_metrics acc ?c"]
  obtain calls m where
    "train_batches (recording_env losses) clip (st @ [weighted_sum (losses st b)]) bs (add_metrics acc ?c)
       = (expected_backward_args losses (st @ [weighted_sum (losses st b)]) bs, calls, Inr m)"
    "length calls = length bs" by blast
  then show ?case by (simp add: train_batch_recording)
qed

lemma expected_backward_args_map:
  "expected_backward_args (\<lambda>st. f) st bs = st @ map (\<lambda>b. weighted_sum (f b)) bs"
  by (induction bs arbitrary: st) simp_all

lemma train_one_epoch_recording:
  "trainer_state (fst (train_one_epoch (recording_env losses) tr bs))
     = expected_backward_args losses (trainer_state tr) bs
   \<and> length (fst (snd (train_one_epoch (recording_env losses) tr bs))) = length bs
   \<and> (bs \<noteq> [] \<longrightarrow> (\<exists>m. snd (snd (train_one_epoch (recording_env losses) tr bs)) = Inr m))"
proof -
  from train_batches_recording[of losses "grad_clip_val tr" "trainer_state tr" bs
      "\<lparr> total_loss = 0, box_loss = 0, dfl_loss = 0, cls_loss = 0, quat_loss = 0 \<rparr>"]
  obtain calls m where "train_batches (recording_env losses) (grad_clip_val tr) (trainer_state tr) bs
      \<lparr> total_loss = 0, box_loss = 0, dfl_loss = 0, cls_loss = 0, quat_loss = 0 \<rparr>
      = (expected_backward_args losses (trainer_state tr) bs, calls, Inr m)" "length calls = length bs"
    by blast
  then show ?thesis by (simp add: train_one_epoch_def Let_def)
qed

text \<open>
  C7. In an epoch of \<open>train_one_epoch\<close>, the value handed to the scaled backward pass of
  a batch is \<open>1 * box_loss + 0.5 * dfl_loss + 1 * cls_loss + 0.1 * quat_loss\<close> of the four
  losses the loss function returned for that batch, with nothing else added. For every
  environment: an iteration whose loss function returned the four losses continues with
  exactly what \<open>backward\<close> returns on that sum (its exception ends the iteration, its
  state goes on to clipping, optimizer and scheduler); the \<open>i\<close>-th backward call belongs
  to the \<open>i\<close>-th batch, there is at most one call per batch, and when the epoch returns
  its metrics there is exactly one call per batch and the reported total loss is the
  mean of the values passed to the backward pass. In the environment whose state is the
  list of the values \<open>backward\<close> received, an epoch ends with one value per batch, in
  order, each the weighted sum of the losses of its batch.
\<close>

theorem train_one_epoch_total_loss:
  assumes "train_one_epoch env tr batches = (tr', calls, r)"
  shows "(\<forall>c \<in> set calls. weighted_total c)
         \<and> length calls \<le> length batches
         \<and> (\<forall>i < length calls. \<exists>s. loss_fn env s (batches ! i) = Inr (call_losses (calls ! i)))
         \<and> (\<forall>m. r = Inr m \<longrightarrow> length calls = length batches
                \<and> total_loss m = sum_list (map call_arg calls) / real (length batches))
         \<and> (\<forall>st batch box dfl cls quat clip.
               loss_fn env st batch = Inr (box, dfl, cls, quat) \<longrightarrow>
               train_batch env clip st batch =
                 (let call = \<lparr> call_losses = (box, dfl, cls, quat),
                               call_arg = 1 * box + 0.5 * dfl + 1 * cls + 0.1 * quat \<rparr>
                  in case backward env st (1 * box + 0.5 * dfl + 1 * cls + 0.1 * quat) of
                       Inl e \<Rightarrow> (st, [call], Inl e)
                     | Inr st1 \<Rightarrow>
                         (case (if clip > 0 then clip_grad_norm env clip st1 else Inr st1) of
                            Inl e \<Rightarrow> (st1, [call], Inl e)
                          | Inr st2 \<Rightarrow>
                              (case optimizer_step env st2 of
                                 Inl e \<Rightarrow> (st2, [call], Inl e)
                               | Inr st3 \<Rightarrow>
                                   (case (case scheduler_step env of None \<Rightarrow> Inr st3 | Some f \<Rightarrow> f st3) of
                                      Inl e \<Rightarrow> (st3, [call], Inl e)
                                    | Inr st4 \<Rightarrow> (st4, [call], Inr call))))))
         \<and> trainer_state (fst (train_one_epoch (recording_env losses) tr0 bs))
               = expected_backward_args losses (trainer_state tr0) bs
         \<and> trainer_state (fst (train_one_epoch (recording_env (\<lambda>st. f)) tr0 bs))
               = trainer_state tr0 @
                 map (\<lambda>b. case f b of (box, dfl, cls, quat) \<Rightarrow> 1 * box + 0.5 * dfl + 1 * cls + 0.1 * quat) bs
         \<and> length (fst (snd (train_one_epoch (recording_env losses) tr0 bs))) = length bs
         \<and> (bs \<noteq> [] \<longrightarrow> (\<exists>m. snd (snd (train_one_epoch (recording_env losses) tr0 bs)) = Inr m))"
proof -
  obtain st cs r0 where tb: "train_batches env (grad_clip_val tr) (trainer_state tr) batches
             \<lparr> total_loss = 0, box_loss = 0, dfl_loss = 0, cls_loss = 0, quat_loss = 0 \<rparr> = (st, cs, r0)"
    using prod_cases3 by blast
  note h = train_batches_calls[OF tb]
  from assms tb have cs: "calls = cs"
    by (auto simp: train_one_epoch_def split: sum.splits)
  have "\<forall>m. r = Inr m \<longrightarrow> length calls = length batches
                \<and> total_loss m = sum_list (map call_arg calls) / real (length batches)"
  proof (intro allI impI)
    fix m assume rm: "r = Inr m"
    with assms tb obtain acc where acc: "r0 = Inr acc" "total_loss m = total_loss acc / real (length batches)"
      by (auto simp: train_one_epoch_def Let_def split: sum.splits if_splits)
    with h cs show "length calls = length batches
                \<and> total_loss m = sum_list (map call_arg calls) / real (length batches)" by auto
  qed
  with h cs have old: "(\<forall>c \<in> set calls. weighted_total c)
         \<and> length calls \<le> length batches
         \<and> (\<forall>i < length calls. \<exists>s. loss_fn env s (batches ! i) = Inr (call_losses (calls ! i)))
         \<and> (\<forall>m. r = Inr m \<longrightarrow> length calls = length batches
                \<and> total_loss m = sum_list (map call_arg calls) / real (length batches))" by blast
  have simple: "trainer_state (fst (train_one_epoch (recording_env (\<lambda>st. f)) tr0 bs))
               = trainer_state tr0 @
                 map (\<lambda>b. case f b of (box, dfl, cls, quat) \<Rightarrow> 1 * box + 0.5 * dfl + 1 * cls + 0.1 * quat) bs"
    using train_one_epoch_recording[of "\<lambda>st. f" tr0 bs]
      expected_backward_args_map[of f "trainer_state tr0" bs]
    by (simp add: weighted_sum_def)
  from old simple train_one_epoch_recording[of losses tr0 bs] train_batch_backward[of env]
  show ?thesis by blast
qed

theorem train_one_epoch_total_loss_witness:
  "train_one_epoch (recording_env (\<lambda>st b. (real b, 2, 3, 10))) (Trainer_init [] ''runs'' 0.5) [1 :: nat, 2]
     = ((Trainer_init [] ''runs'' 0.5)\<lparr> trainer_state := [6, 7] \<rparr>,
        [\<lparr> call_losses = (1, 2, 3, 10), call_arg = 6 \<rparr>, \<lparr> call_losses = (2, 2, 3, 10), call_arg = 7 \<rparr>],
        Inr \<lparr> total_loss = 13 / 2, box_loss = 3 / 2, dfl_loss = 2, cls_loss = 3, quat_loss = 10 \<rparr>)
   \<and> weighted_total \<lparr> call_losses = (1, 2, 3, 10), call_arg = 6 \<rparr>
   \<and> weighted_total \<lparr> call_losses = (2, 2, 3, 10), call_arg = 7 \<rparr>"
proof -
  have run: "train_one_epoch (recording_env (\<lambda>st b. (real b, 2, 3, 10))) (Trainer_init [] ''runs'' 0.5) [1 :: nat, 2]
     = ((Trainer_init [] ''runs'' 0.5)\<lparr> trainer_state := [6, 7] \<rparr>,
        [\<lparr> call_losses = (1, 2, 3, 10), call_arg = 6 \<rparr>, \<lparr> call_losses = (2, 2, 3, 10), call_arg = 7 \<rparr>],
        Inr \<lparr> total_loss = 13 / 2, box_loss = 3 / 2, dfl_loss = 2, cls_loss = 3, quat_loss = 10 \<rparr>)"
    by (simp add: train_one_epoch_def train_batch_def recording_env_def Trainer_init_def
        add_metrics_def Let_def)
  from train_one_epoch_total_loss[OF run]
  have "\<forall>c \<in> set [\<lparr> call_losses = (1, 2, 3, 10), call_arg = 6 \<rparr>,
                   \<lparr> call_losses = (2, 2, 3, 10), call_arg = 7 \<rparr>]. weighted_total c"
    by (rule conjunct1)
  with run show ?thesis by simp
qed

section \<open>The CSV training log\<close>

lemma csv_log_with_file:
  assumes "csv_file tr = Some f"
  shows "initialize_csv tr files =
           Inr (files(f \<mapsto> [map CsvStr [''epoch'', ''batch'', ''total_loss'', ''box_loss'',
                                           ''dfl_loss'', ''quat_loss'']]))"
    and "files f = Some rows \<Longrightarrow>
         \<exists>files'. log_to_csv tr files epoch batch t b d q = Inr files'
            \<and> files' f = Some (rows @ [[CsvInt epoch, CsvInt batch, CsvFloat t, CsvFloat b,
                                         CsvFloat d, CsvFloat q]])"
  using assms by (simp_all add: initialize_csv_def log_to_csv_def)

text \<open>
  C10. A trainer built by the constructor has no \<open>csv_file\<close> attribute, so both
  \<open>_initialize_csv\<close> and \<open>_log_to_csv\<close> raise \<open>AttributeError\<close> before they open
  any file: no header is written and no row is appended.
\<close>

theorem csv_log_raises_after_init:
  "initialize_csv (Trainer_init st dir clip) files = Inl AttributeError
   \<and> log_to_csv (Trainer_init st dir clip) files epoch batch t b d q = Inl AttributeError"
  by (simp add: initialize_csv_def log_to_csv_def Trainer_init_def)

section \<open>The dropout-rate schedule of QResNet34\<close>

lemma get_p_set_p: "get_p (set_p r d) = Some r"
  by (cases d) simp_all

lemma set_p_QuaternionDropout:
  "is_QuaternionDropout d \<Longrightarrow> set_p r d = QuaternionDropoutModule r"
  by (cases d) simp_all

lemma update_block_dropout_synced:
  assumes "idx < length rates"
  shows "\<exists>blk'. update_block_dropout rates blk idx = Inr blk'
     \<and> stage_synced rates idx blk' (length blk)
     \<and> (list_all (\<lambda>layer. is_QuaternionDropout (dropout1 layer) \<and> is_QuaternionDropout (dropout2 layer)) blk
          \<longrightarrow> stage_dropout rates idx blk' (length blk))"
  using assms
  by (cases blk)
     (simp_all add: update_block_dropout_def stage_synced_def stage_dropout_def list_all_iff
        get_p_set_p set_p_QuaternionDropout)

lemma update_dropout_rates_step:
  assumes len: "length (current_rates m) = 5"
  shows "\<exists>m'. update_dropout_rates m = Inr m'
     \<and> current_rates m' = map (\<lambda>r. min 0.5 (r + increment m)) (current_rates m)
     \<and> increment m' = increment m \<and> initial_rates m' = initial_rates m
     \<and> stage_synced (current_rates m') 0 (conv2_x m') (length (conv2_x m))
     \<and> stage_synced (current_rates m') 1 (conv3_x m') (length (conv3_x m))
     \<and> stage_synced (current_rates m') 2 (conv4_x m') (length (conv4_x m))
     \<and> stage_synced (current_rates m') 3 (conv5_x m') (length (conv5_x m))
     \<and> classifier_dropout_p m' = current_rates m' ! 4
     \<and> (list_all (\<lambda>layer. is_QuaternionDropout (dropout1 layer) \<and> is_QuaternionDropout (dropout2 layer))
           (conv2_x m @ conv3_x m @ conv4_x m @ conv5_x m)
         \<longrightarrow> stage_dropout (current_rates m') 0 (conv2_x m') (length (conv2_x m))
           \<and> stage_dropout (current_rates m') 1 (conv3_x m') (length (conv3_x m))
           \<and> stage_dropout (current_rates m') 2 (conv4_x m') (length (conv4_x m))
           \<and> stage_dropout (current_rates m') 3 (conv5_x m') (length (conv5_x m)))"
proof -
  let ?rates = "map (\<lambda>r. min 0.5 (r + increment m)) (current_rates m)"
  let ?D = "list_all (\<lambda>layer. is_QuaternionDropout (dropout1 layer) \<and> is_QuaternionDropout (dropout2 layer))"
  have l: "length ?rates = 5" using len by simp
  have i0: "0 < length ?rates" and i1: "1 < length ?rates"
    and i2: "2 < length ?rates" and i3: "3 < length ?rates" and i4: "4 < length ?rates"
    unfolding l by simp_all
  obtain b2 where b2: "update_block_dropout ?rates (conv2_x m) 0 = Inr b2"
      "stage_synced ?rates 0 b2 (length (conv2_x m))"
      "?D (conv2_x m) \<longrightarrow> stage_dropout ?rates 0 b2 (length (conv2_x m))"
    using update_block_dropout_synced[OF i0, of "conv2_x m"] by blast
  obtain b3 where b3: "update_block_dropout ?rates (conv3_x m) 1 = Inr b3"
      "stage_synced ?rates 1 b3 (length (conv3_x m))"
      "?D (conv3_x m) \<longrightarrow> stage_dropout ?rates 1 b3 (length (conv3_x m))"
    using update_block_dropout_synced[OF i1, of "conv3_x m"] by blast
  obtain b4 where b4: "update_block_dropout ?rates (conv4_x m) 2 = Inr b4"
      "stage_synced ?rates 2 b4 (length (conv4_x m))"
      "?D (conv4_x m) \<longrightarrow> stage_dropout ?rates 2 b4 (length (conv4_x m))"
    using update_block_dropout_synced[OF i2, of "conv4_x m"] by blast
  obtain b5 where b5: "update_block_dropout ?rates (conv5_x m) 3 = Inr b5"
      "stage_synced ?rates 3 b5 (length (conv5_x m))"
      "?D (conv5_x m) \<longrightarrow> stage_dropout ?rates 3 b5 (length (conv5_x m))"
    using update_block_dropout_synced[OF i3, of "conv5_x m"] by blast
  have "update_dropout_rates m =
      Inr (m\<lparr> current_rates := ?rates, conv2_x := b2, conv3_x := b3, conv4_x := b4,
                  conv5_x := b5, classifier_dropout_p := ?rates ! 4 \<rparr>)"
    unfolding update_dropout_rates_def Let_def b2(1) b3(1) b4(1) b5(1) bind_res_def
    using i4 by simp
  with b2(2,3) b3(2,3) b4(2,3) b5(2,3) show ?thesis by simp
qed

lemma schedule_inv_init: "schedule_inv QResNet34_init"
  by (simp add: schedule_inv_def QResNet34_init_def make_layer_def Let_def
      QuaternionBasicBlock_init_def upt_rec)

lemma stage_dropout_is_dropout:
  "stage_dropout rates idx blk n \<Longrightarrow>
   list_all (\<lambda>layer. is_QuaternionDropout (dropout1 layer) \<and> is_QuaternionDropout (dropout2 layer)) blk"
  by (simp add: stage_dropout_def list_all_iff)

lemma schedule_inv_step:
  assumes "schedule_inv m"
  shows "\<exists>m'. update_dropout_rates m = Inr m' \<and> schedule_inv m'
     \<and> current_rates m' = map (\<lambda>r. min 0.5 (r + 0.05)) (current_rates m)
     \<and> stage_dropout (current_rates m') 0 (conv2_x m') 3
     \<and> stage_dropout (current_rates m') 1 (conv3_x m') 4
     \<and> stage_dropout (current_rates m') 2 (conv4_x m') 6
     \<and> stage_dropout (current_rates m') 3 (conv5_x m') 3
     \<and> classifier_dropout_p m' = current_rates m' ! 4"
proof -
  from assms have len: "length (current_rates m) = 5" and inc: "increment m = 0.05"
    and bl: "length (conv2_x m) = 3" "length (conv3_x m) = 4" "length (conv4_x m) = 6"
      "length (conv5_x m) = 3"
    and dr: "list_all (\<lambda>layer. is_QuaternionDropout (dropout1 layer) \<and> is_QuaternionDropout (dropout2 layer))
           (conv2_x m @ conv3_x m @ conv4_x m @ conv5_x m)"
    by (simp_all add: schedule_inv_def)
  from update_dropout_rates_step[OF len] dr obtain m' where
    m': "update_dropout_rates m = Inr m'"
     "current_rates m' = map (\<lambda>r. min 0.5 (r + increment m)) (current_rates m)"
     "increment m' = increment m"
     "stage_dropout (current_rates m') 0 (conv2_x m') (length (conv2_x m))"
     "stage_dropout (current_rates m') 1 (conv3_x m') (length (conv3_x m))"
     "stage_dropout (current_rates m') 2 (conv4_x m') (length (conv4_x m))"
     "stage_dropout (current_rates m') 3 (conv5_x m') (length (conv5_x m))"
     "classifier_dropout_p m' = current_rates m' ! 4"
    by blast
  note sd = m'(4-7)[unfolded bl]
  have le: "\<forall>r \<in> set (current_rates m'). r \<le> 0.5"
  proof
    fix r assume "r \<in> set (current_rates m')"
    then obtain x where "r = min 0.5 (x + increment m)" unfolding m'(2) by auto
    then show "r \<le> 0.5" by (metis min.cobounded1)
  qed
  have d': "list_all (\<lambda>layer. is_QuaternionDropout (dropout1 layer) \<and> is_QuaternionDropout (dropout2 layer))
           (conv2_x m' @ conv3_x m' @ conv4_x m' @ conv5_x m')"
    using sd[THEN stage_dropout_is_dropout] by simp
  have l': "length (current_rates m') = 5" using len by (simp add: m'(2))
  have bl': "length (conv2_x m') = 3" "length (conv3_x m') = 4" "length (conv4_x m') = 6"
      "length (conv5_x m') = 3"
    using sd by (simp_all add: stage_dropout_def)
  have "schedule_inv m'"
    unfolding schedule_inv_def list_all_iff[of "\<lambda>r. r \<le> 0.5"]
    using l' m'(3) inc le bl' d' by simp
  with m'(1,2,8) sd inc show ?thesis by simp
qed

lemma schedule_inv_reachable:
  "\<exists>m. update_dropout_rates_n n QResNet34_init = Inr m \<and> schedule_inv m"
proof (induction n)
  case 0
  show ?case by (simp add: schedule_inv_init)
next
  case (Suc n)
  then obtain m where m: "update_dropout_rates_n n QResNet34_init = Inr m" "schedule_inv m" by blast
  from schedule_inv_step[OF m(2)] m(1) show ?case by (auto simp add: bind_res_def)
qed

text \<open>
  C5. One call of \<open>update_dropout_rates\<close> on a model with five stored rates replaces
  every rate \<open>r\<close> by \<open>min 0.5 (r + increment)\<close> and writes the new rate of each stage
  into both dropout slots of every block of that stage, and the fifth rate into the
  classifier dropout. For a model built by the constructor and updated \<open>n\<close> times, the
  increment is 0.05, and one more call succeeds, moves each of the five rates to
  \<open>min 0.5 (r + 0.05)\<close>, never lowers a rate and leaves none above 0.5; after it the
  3, 4, 6 and 3 blocks of the four stages hold \<open>QuaternionDropout\<close> modules with the new
  rate of their stage in both slots, and the classifier dropout holds the fifth rate.
\<close>

theorem update_dropout_rates_schedule:
  "(length (current_rates m) = 5 \<longrightarrow>
      (\<exists>m'. update_dropout_rates m = Inr m'
        \<and> current_rates m' = map (\<lambda>r. min 0.5 (r + increment m)) (current_rates m)
        \<and> stage_synced (current_rates m') 0 (conv2_x m') (length (conv2_x m))
        \<and> stage_synced (current_rates m') 1 (conv3_x m') (length (conv3_x m))
        \<and> stage_synced (current_rates m') 2 (conv4_x m') (length (conv4_x m))
        \<and> stage_synced (current_rates m') 3 (conv5_x m') (length (conv5_x m))
        \<and> classifier_dropout_p m' = current_rates m' ! 4))
   \<and> (\<exists>m0 m1. update_dropout_rates_n n QResNet34_init = Inr m0
        \<and> update_dropout_rates_n (Suc n) QResNet34_init = Inr m1
        \<and> update_dropout_rates m0 = Inr m1
        \<and> increment m0 = 0.05 \<and> length (current_rates m0) = 5 \<and> length (current_rates m1) = 5
        \<and> (\<forall>i<5. current_rates m1 ! i = min 0.5 (current_rates m0 ! i + 0.05)
               \<and> current_rates m0 ! i \<le> current_rates m1 ! i
               \<and> current_rates m1 ! i \<le> 0.5)
        \<and> stage_dropout (current_rates m1) 0 (conv2_x m1) 3
        \<and> stage_dropout (current_rates m1) 1 (conv3_x m1) 4
        \<and> stage_dropout (current_rates m1) 2 (conv4_x m1) 6
        \<and> stage_dropout (current_rates m1) 3 (conv5_x m1) 3
        \<and> classifier_dropout_p m1 = current_rates m1 ! 4)"
proof
  show "length (current_rates m) = 5 \<longrightarrow>
      (\<exists>m'. update_dropout_rates m = Inr m'
        \<and> current_rates m' = map (\<lambda>r. min 0.5 (r + increment m)) (current_rates m)
        \<and> stage_synced (current_rates m') 0 (conv2_x m') (length (conv2_x m))
        \<and> stage_synced (current_rates m') 1 (conv3_x m') (length (conv3_x m))
        \<and> stage_synced (current_rates m') 2 (conv4_x m') (length (conv4_x m))
        \<and> stage_synced (current_rates m') 3 (conv5_x m') (length (conv5_x m))
        \<and> classifier_dropout_p m' = current_rates m' ! 4)"
    using update_dropout_rates_step[of m] by blast
next
  obtain m0 where m0: "update_dropout_rates_n n QResNet34_init = Inr m0" "schedule_inv m0"
    using schedule_inv_reachable by blast
  then have len: "length (current_rates m0) = 5" and inc: "increment m0 = 0.05"
    and le: "\<forall>r \<in> set (current_rates m0). r \<le> 0.5"
    by (simp_all add: schedule_inv_def list_all_iff)
  from schedule_inv_step[OF m0(2)] obtain m1 where
    m1: "update_dropout_rates m0 = Inr m1"
     "current_rates m1 = map (\<lambda>r. min 0.5 (r + 0.05)) (current_rates m0)"
     "stage_dropout (current_rates m1) 0 (conv2_x m1) 3"
     "stage_dropout (current_rates m1) 1 (conv3_x m1) 4"
     "stage_dropout (current_rates m1) 2 (conv4_x m1) 6"
     "stage_dropout (current_rates m1) 3 (conv5_x m1) 3"
     "classifier_dropout_p m1 = current_rates m1 ! 4"
    by blast
  have s: "update_dropout_rates_n (Suc n) QResNet34_init = Inr m1"
    using m0(1) m1(1) by (simp add: bind_res_def)
  have r: "\<forall>i<5. current_rates m1 ! i = min 0.5 (current_rates m0 ! i + 0.05)
               \<and> current_rates m0 ! i \<le> current_rates m1 ! i
               \<and> current_rates m1 ! i \<le> 0.5"
  proof (intro allI impI)
    fix i :: nat assume i: "i < 5"
    with len have "current_rates m0 ! i \<in> set (current_rates m0)" by simp
    with le have "current_rates m0 ! i \<le> 0.5" by blast
    moreover have "current_rates m1 ! i = min 0.5 (current_rates m0 ! i + 0.05)"
      using i len by (simp add: m1(2))
    ultimately show "current_rates m1 ! i = min 0.5 (current_rates m0 ! i + 0.05)
               \<and> current_rates m0 ! i \<le> current_rates m1 ! i
               \<and> current_rates m1 ! i \<le> 0.5" by (simp add: min_def)
  qed
  have l1: "length (current_rates m1) = 5" using len by (simp add: m1(2))
  from m0(1) s m1(1) inc len l1 r m1(3-7)
  show "\<exists>m0 m1. update_dropout_rates_n n QResNet34_init = Inr m0
        \<and> update_dropout_rates_n (Suc n) QResNet34_init = Inr m1
        \<and> update_dropout_rates m0 = Inr m1
        \<and> increment m0 = 0.05 \<and> length (current_rates m0) = 5 \<and> length (current_rates m1) = 5
        \<and> (\<forall>i<5. current_rates m1 ! i = min 0.5 (current_rates m0 ! i + 0.05)
               \<and> current_rates m0 ! i \<le> current_rates m1 ! i
               \<and> current_rates m1 ! i \<le> 0.5)
        \<and> stage_dropout (current_rates m1) 0 (conv2_x m1) 3
        \<and> stage_dropout (current_rates m1) 1 (conv3_x m1) 4
        \<and> stage_dropout (current_rates m1) 2 (conv4_x m1) 6
        \<and> stage_dropout (current_rates m1) 3 (conv5_x m1) 3
        \<and> classifier_dropout_p m1 = current_rates m1 ! 4"
    by blast
qed

theorem update_dropout_rates_schedule_witness:
  "length (current_rates QResNet34_init) = 5
   \<and> (\<exists>m'. update_dropout_rates QResNet34_init = Inr m'
         \<and> current_rates m' = [0.15, 0.2, 0.25, 0.25, 0.3] \<and> classifier_dropout_p m' = 0.3)"
proof -
  have len: "length (current_rates QResNet34_init) = 5"
    by (simp add: QResNet34_init_def Let_def)
  have r: "map (\<lambda>r. min 0.5 (r + increment QResNet34_init)) (current_rates QResNet34_init)
      = [0.15, 0.2, 0.25, 0.25, 0.3]"
    by (simp add: QResNet34_init_def Let_def)
  from update_dropout_rates_schedule[of QResNet34_init 0] len obtain m' where
    "update_dropout_rates QResNet34_init = Inr m'"
    "current_rates m' = map (\<lambda>r. min 0.5 (r + increment QResNet34_init)) (current_rates QResNet34_init)"
    "classifier_dropout_p m' = current_rates m' ! 4" by blast
  with len r show ?thesis by simp
qed

section \<open>Indexing tensors\<close>

lemma concat_map_upt_nth:
  assumes "\<And>i. i < n \<Longrightarrow> length (f i) = m" "i < n" "j < m"
  shows "length (concat (map f [0..<n])) = n * m \<and> concat (map f [0..<n]) ! (i * m + j) = f i ! j"
  using assms
proof (induction n)
  case 0
  then show ?case by simp
next
  case (Suc n)
  have len: "length (concat (map f [0..<n])) = n * m"
  proof -
    have "length (concat (map f [0..<n])) = sum_list (map (\<lambda>i. length (f i)) [0..<n])"
      by (simp add: length_concat comp_def)
    also have "\<dots> = sum_list (map (\<lambda>i. m) [0..<n])"
      using Suc.prems(1) by (intro arg_cong[where f = sum_list] map_cong) auto
    also have "\<dots> = n * m" by (simp add: sum_list_triv)
    finally show ?thesis .
  qed
  have fn: "length (f n) = m" using Suc.prems(1) by simp
  show ?case
  proof (cases "i < n")
    case True
    have "i * m + j < n * m"
    proof -
      have "i * m + j < i * m + m" using Suc.prems(3) by simp
      also have "\<dots> = Suc i * m" by simp
      also have "\<dots> \<le> n * m" using True by (intro mult_le_mono1) simp
      finally show ?thesis .
    qed
    with Suc.IH[OF _ True Suc.prems(3)] Suc.prems(1) len fn show ?thesis
      by (simp add: nth_append)
  next
    case False
    with Suc.prems(2) have "i = n" by simp
    with len fn Suc.prems(3) show ?thesis by (simp add: nth_append)
  qed
qed

lemma length_concat_map_upt:
  assumes "\<And>i. i < n \<Longrightarrow> length (f i) = m"
  shows "length (concat (map f [0..<n])) = n * m"
proof -
  have "length (concat (map f [0..<n])) = sum_list (map (\<lambda>i. length (f i)) [0..<n])"
    by (simp add: length_concat comp_def)
  also have "\<dots> = sum_list (map (\<lambda>i. m) [0..<n])"
    using assms by (intro arg_cong[where f = sum_list] map_cong) auto
  also have "\<dots> = n * m" by (simp add: sum_list_triv)
  finally show ?thesis .
qed

lemma length_all_indices: "length (all_indices shp) = numel shp"
proof (induction shp)
  case Nil
  show ?case by (simp add: numel_def)
next
  case (Cons s shp)
  have "length (concat (map (\<lambda>i. map ((#) i) (all_indices shp)) [0..<s])) = s * numel shp"
    by (rule length_concat_map_upt) (simp add: Cons.IH)
  then show ?case by (simp add: numel_def)
qed

lemma valid_index_Cons:
  "valid_index (s # shp) idx = (\<exists>i rest. idx = i # rest \<and> i < s \<and> valid_index shp rest)"
  by (auto simp: valid_index_def list_all2_Cons2)

lemma valid_index_Nil: "valid_index [] idx = (idx = [])"
  by (simp add: valid_index_def)

lemma valid_index_simps [simp]:
  "valid_index [] [] = True"
  "valid_index (s # shp) (i # rest) = (i < s \<and> valid_index shp rest)"
  "valid_index (s # shp) [] = False"
  "valid_index [] (i # rest) = False"
  by (simp_all add: valid_index_def)

lemma ravel_less: "valid_index shp idx \<Longrightarrow> ravel shp idx < numel shp"
proof (induction shp arbitrary: idx)
  case Nil
  then show ?case by (simp add: numel_def valid_index_def)
next
  case (Cons s shp)
  then obtain i rest where idx: "idx = i # rest" "i < s" "valid_index shp rest"
    by (auto simp: valid_index_Cons)
  from Cons.IH[OF idx(3)] have r: "ravel shp rest < numel shp" .
  have "i * numel shp + ravel shp rest < i * numel shp + numel shp" using r by simp
  also have "\<dots> = Suc i * numel shp" by simp
  also have "\<dots> \<le> s * numel shp" using idx(2) by (intro mult_le_mono1) simp
  finally show ?case by (simp add: idx numel_def)
qed

lemma all_indices_nth: "valid_index shp idx \<Longrightarrow> all_indices shp ! ravel shp idx = idx"
proof (induction shp arbitrary: idx)
  case Nil
  then show ?case by (simp add: valid_index_def)
next
  case (Cons s shp)
  then obtain i rest where idx: "idx = i # rest" "i < s" "valid_index shp rest"
    by (auto simp: valid_index_Cons)
  have r: "ravel shp rest < numel shp" by (rule ravel_less[OF idx(3)])
  have "concat (map (\<lambda>i. map ((#) i) (all_indices shp)) [0..<s]) ! (i * numel shp + ravel shp rest)
        = map ((#) i) (all_indices shp) ! ravel shp rest"
    using concat_map_upt_nth[of s "\<lambda>i. map ((#) i) (all_indices shp)" "numel shp" i "ravel shp rest"]
      idx(2) r by (simp add: length_all_indices)
  also have "\<dots> = i # (all_indices shp ! ravel shp rest)"
    using r by (simp add: length_all_indices)
  finally show ?case using Cons.IH[OF idx(3)] by (simp add: idx)
qed

lemma all_indices_valid: "idx \<in> set (all_indices shp) \<Longrightarrow> valid_index shp idx"
  by (induction shp arbitrary: idx) auto

lemma get_tabulate: "valid_index shp idx \<Longrightarrow> get (tabulate shp f) idx = f idx"
  using ravel_less[of shp idx] all_indices_nth[of shp idx]
  by (simp add: get_def tabulate_def length_all_indices)

lemma shape_tabulate [simp]: "shape (tabulate shp f) = shp"
  by (simp add: tabulate_def)

lemma wf_tabulate: "wf_tensor (tabulate shp f)"
  by (simp add: wf_tensor_def tabulate_def length_all_indices)

lemma tabulate_cong:
  "(\<And>idx. valid_index shp idx \<Longrightarrow> f idx = g idx) \<Longrightarrow> tabulate shp f = tabulate shp g"
  by (simp add: tabulate_def all_indices_valid)

declare all_indices.simps [simp del]

lemma bind_res_simps [simp]:
  "bind_res (Inr v) f = f v"
  "bind_res (Inl e) f = Inl e"
  by (simp_all add: bind_res_def)

lemma length_data_tabulate [simp]: "length (data (tabulate shp f)) = numel shp"
  by (simp add: tabulate_def length_all_indices)

section \<open>Quaternion dropout: the shared mask\<close>

lemma get_map_tensor:
  "ravel (shape t) idx < length (data t) \<Longrightarrow> get (map_tensor f t) idx = f (get t idx)"
  by (simp add: get_def map_tensor_def)

lemma dropout_mask_get:
  assumes "b < B" "c < C" "h < H" "w < W"
  shows "get (map_tensor (\<lambda>v. v > r) (torch_rand u [B, C, H, W])) [b, c, h, w] = (u [b, c, h, w] > r)"
proof -
  have v: "valid_index [B, C, H, W] [b, c, h, w]" using assms by simp
  have "ravel (shape (torch_rand u [B, C, H, W])) [b, c, h, w] < length (data (torch_rand u [B, C, H, W]))"
    using ravel_less[OF v] by (simp add: torch_rand_def tabulate_def length_all_indices)
  then show ?thesis
    using get_tabulate[OF v, of u] by (simp add: get_map_tensor torch_rand_def)
qed

lemma dropout_training:
  assumes wf: "wf_tensor x" and sh: "shape x = [B, C, 4, H, W]" and r: "r \<noteq> 0"
  shows "\<exists>y. QuaternionDropout_forward \<lparr> training = True, p = r \<rparr> u x = Inr y
      \<and> wf_tensor y \<and> shape y = [B, C, 4, H, W]
      \<and> (\<forall>b<B. \<forall>c<C. \<forall>q<4. \<forall>h<H. \<forall>w<W.
            get y [b, c, q, h, w] = get x [b, c, q, h, w] * of_bool (u [b, c, h, w] > r) / (1 - r))"
proof -
  let ?mask = "map_tensor (\<lambda>v. v > r) (torch_rand u [B, C, H, W])"
  let ?mask1 = "?mask\<lparr> shape := [B, C, 1, H, W] \<rparr>"
  let ?mask5 = "tabulate [B, C, 4, H, W]
      (\<lambda>idx. get ?mask1 (map2 (\<lambda>i s. if s = 1 then 0 else i) idx [B, C, 1, H, W]))"
  let ?xm = "\<lparr> shape = [B, C, 4, H, W], data = map2 (\<lambda>v keep. v * of_bool keep) (data x) (data ?mask5) \<rparr>"
  let ?y = "map_tensor (\<lambda>v. v / (1 - r)) ?xm"
  have u1: "unsqueeze 2 ?mask = Inr ?mask1"
    by (simp add: unsqueeze_def map_tensor_def torch_rand_def del: One_nat_def)
  have e1: "expand [B, C, 4, H, W] ?mask1 = Inr ?mask5"
    by (simp add: expand_def del: One_nat_def)
  have z1: "zip_tensor (\<lambda>v keep. v * of_bool keep) x ?mask5 = Inr ?xm"
    by (simp add: zip_tensor_def sh)
  have fw: "QuaternionDropout_forward \<lparr> training = True, p = r \<rparr> u x = Inr ?y"
    using r by (simp add: QuaternionDropout_forward_def sh Let_def u1 e1 z1 del: One_nat_def)
  have lx: "length (data x) = numel [B, C, 4, H, W]" using wf sh by (simp add: wf_tensor_def)
  have lm: "length (data ?mask5) = numel [B, C, 4, H, W]"
    by (simp add: tabulate_def length_all_indices)
  have wfy: "wf_tensor ?y" by (simp add: wf_tensor_def map_tensor_def lx)
  have shy: "shape ?y = [B, C, 4, H, W]" by (simp add: map_tensor_def)
  have el: "\<forall>b<B. \<forall>c<C. \<forall>q<4. \<forall>h<H. \<forall>w<W.
            get ?y [b, c, q, h, w] = get x [b, c, q, h, w] * of_bool (u [b, c, h, w] > r) / (1 - r)"
  proof (intro allI impI)
    fix b c q h w :: nat
    assume b: "b < B" and c: "c < C" and q: "q < 4" and h: "h < H" and w: "w < W"
    let ?idx = "[b, c, q, h, w]"
    have v: "valid_index [B, C, 4, H, W] ?idx" using b c q h w by simp
    let ?n = "ravel [B, C, 4, H, W] ?idx"
    have n: "?n < numel [B, C, 4, H, W]" by (rule ravel_less[OF v])
    have m5: "data ?mask5 ! ?n = get ?mask1 (map2 (\<lambda>i s. if s = 1 then 0 else i) ?idx [B, C, 1, H, W])"
      using get_tabulate[OF v, of "\<lambda>idx. get ?mask1 (map2 (\<lambda>i s. if s = 1 then 0 else i) idx [B, C, 1, H, W])"]
      by (simp add: get_def)
    have ix: "map2 (\<lambda>i s. if s = 1 then 0 else i) ?idx [B, C, 1, H, W] = [b, c, 0, h, w]"
      using b c h w by auto
    have "get ?mask1 [b, c, 0, h, w] = get ?mask [b, c, h, w]"
      by (simp add: get_def map_tensor_def torch_rand_def numel_def)
    also have "\<dots> = (u [b, c, h, w] > r)" by (rule dropout_mask_get[OF b c h w])
    finally have mk: "data ?mask5 ! ?n = (u [b, c, h, w] > r)" using m5 ix by simp
    have "get ?y ?idx = (data x ! ?n) * of_bool (data ?mask5 ! ?n) / (1 - r)"
      using n lx by (simp add: get_def map_tensor_def)
    then show "get ?y ?idx = get x ?idx * of_bool (u [b, c, h, w] > r) / (1 - r)"
      using mk by (simp add: get_def sh)
  qed
  from fw wfy shy el show ?thesis by blast
qed

text \<open>
  C1. For an input of shape (B, C, 4, H, W) and a probability \<open>r\<close> strictly between 0
  and 1, a forward pass in training mode makes one draw per position (b, c, h, w), its
  mask has shape (B, C, H, W) and keeps a position exactly when the draw exceeds \<open>r\<close>,
  and the result has the shape of the input: at a kept position all four components
  are the input divided by \<open>1 - r\<close>, at a dropped position all four are 0. In
  evaluation mode, and for probability 0 in either mode, the result is the input.
\<close>

theorem QuaternionDropout_forward_shared_mask:
  assumes "wf_tensor x" and "shape x = [B, C, 4, H, W]" and "0 < r" and "r < 1"
  shows "(\<exists>y. QuaternionDropout_forward \<lparr> training = True, p = r \<rparr> u x = Inr y
            \<and> shape y = [B, C, 4, H, W]
            \<and> (\<forall>b<B. \<forall>c<C. \<forall>h<H. \<forall>w<W.
                  get (map_tensor (\<lambda>v. v > r) (torch_rand u [B, C, H, W])) [b, c, h, w]
                    = (u [b, c, h, w] > r)
                  \<and> (if u [b, c, h, w] > r
                     then \<forall>q<4. get y [b, c, q, h, w] = get x [b, c, q, h, w] / (1 - r)
                     else \<forall>q<4. get y [b, c, q, h, w] = 0)))
     \<and> shape (map_tensor (\<lambda>v. v > r) (torch_rand u [B, C, H, W])) = [B, C, H, W]
     \<and> QuaternionDropout_forward \<lparr> training = False, p = r \<rparr> u x = Inr x
     \<and> QuaternionDropout_forward \<lparr> training = t, p = 0 \<rparr> u x = Inr x"
proof -
  from assms(3) have r0: "r \<noteq> 0" by simp
  from dropout_training[OF assms(1,2) r0, of u] obtain y where
    y: "QuaternionDropout_forward \<lparr> training = True, p = r \<rparr> u x = Inr y"
       "shape y = [B, C, 4, H, W]"
       "\<forall>b<B. \<forall>c<C. \<forall>q<4. \<forall>h<H. \<forall>w<W.
            get y [b, c, q, h, w] = get x [b, c, q, h, w] * of_bool (u [b, c, h, w] > r) / (1 - r)"
    by blast
  have el: "\<forall>b<B. \<forall>c<C. \<forall>h<H. \<forall>w<W.
                  get (map_tensor (\<lambda>v. v > r) (torch_rand u [B, C, H, W])) [b, c, h, w]
                    = (u [b, c, h, w] > r)
                  \<and> (if u [b, c, h, w] > r
                     then \<forall>q<4. get y [b, c, q, h, w] = get x [b, c, q, h, w] / (1 - r)
                     else \<forall>q<4. get y [b, c, q, h, w] = 0)"
  proof (intro allI impI)
    fix b c h w assume b: "b < B" and c: "c < C" and h: "h < H" and w: "w < W"
    have q: "get y [b, c, q, h, w] = get x [b, c, q, h, w] * of_bool (u [b, c, h, w] > r) / (1 - r)"
      if "q < 4" for q
      using y(3) b c h w that by blast
    show "get (map_tensor (\<lambda>v. v > r) (torch_rand u [B, C, H, W])) [b, c, h, w]
                    = (u [b, c, h, w] > r)
                  \<and> (if u [b, c, h, w] > r
                     then \<forall>q<4. get y [b, c, q, h, w] = get x [b, c, q, h, w] / (1 - r)
                     else \<forall>q<4. get y [b, c, q, h, w] = 0)"
      using dropout_mask_get[OF b c h w, of r u] q by simp
  qed
  have sm: "shape (map_tensor (\<lambda>v. v > r) (torch_rand u [B, C, H, W])) = [B, C, H, W]"
    by (simp add: map_tensor_def torch_rand_def)
  have ev: "QuaternionDropout_forward \<lparr> training = False, p = r \<rparr> u x = Inr x"
    "QuaternionDropout_forward \<lparr> training = t, p = 0 \<rparr> u x = Inr x"
    by (simp_all add: QuaternionDropout_forward_def)
  from y(1,2) el sm ev show ?thesis by blast
qed

theorem QuaternionDropout_forward_shared_mask_witness:
  "wf_tensor (tabulate [1, 1, 4, 1, 2] (\<lambda>idx. real (idx ! 2 + 1)))
   \<and> shape (tabulate [1, 1, 4, 1, 2] (\<lambda>idx. real (idx ! 2 + 1))) = [1, 1, 4, 1, 2]
   \<and> (0 :: real) < 0.5 \<and> (0.5 :: real) < 1
   \<and> (\<exists>y. QuaternionDropout_forward \<lparr> training = True, p = 0.5 \<rparr>
              (\<lambda>idx. if idx ! 3 = 0 then 0.9 else 0.1)
              (tabulate [1, 1, 4, 1, 2] (\<lambda>idx. real (idx ! 2 + 1))) = Inr y
          \<and> get y [0, 0, 2, 0, 0] = 6 \<and> get y [0, 0, 2, 0, 1] = 0)"
proof -
  let ?x = "tabulate [1, 1, 4, 1, 2] (\<lambda>idx. real (idx ! 2 + 1))"
  let ?u = "\<lambda>idx :: nat list. if idx ! 3 = 0 then 0.9 else (0.1 :: real)"
  have wf: "wf_tensor ?x" by (rule wf_tabulate)
  have sh: "shape ?x = [1, 1, 4, 1, 2]" by simp
  have r: "(0 :: real) < 0.5" "(0.5 :: real) < 1" by simp_all
  from QuaternionDropout_forward_shared_mask[OF wf sh r, of ?u] obtain y where
    y: "QuaternionDropout_forward \<lparr> training = True, p = 0.5 \<rparr> ?u ?x = Inr y"
    and el: "\<forall>b<1. \<forall>c<1. \<forall>h<1. \<forall>w<2.
                  get (map_tensor (\<lambda>v. v > 0.5) (torch_rand ?u [1, 1, 1, 2])) [b, c, h, w]
                    = (?u [b, c, h, w] > 0.5)
                  \<and> (if ?u [b, c, h, w] > 0.5
                     then \<forall>q<4. get y [b, c, q, h, w] = get ?x [b, c, q, h, w] / (1 - 0.5)
                     else \<forall>q<4. get y [b, c, q, h, w] = 0)"
    by blast
  have x2: "get ?x [0, 0, 2, 0, 0] = 3" by (simp add: get_tabulate)
  from el have "\<forall>q<4. get y [0, 0, q, 0, 0] = get ?x [0, 0, q, 0, 0] / (1 - 0.5)"
    by force
  then have k: "get y [0, 0, 2, 0, 0] = 6" using x2 by simp
  from el have "\<forall>q<4. get y [0, 0, q, 0, 1] = 0"
    by force
  then have d: "get y [0, 0, 2, 0, 1] = 0" by simp
  from wf sh r y k d show ?thesis by blast
qed

section \<open>Quaternion pooling: one plane at a time\<close>

lemma permute_02134:
  assumes "shape t = [s0, s1, s2, s3, s4]"
  shows "permute [0, 2, 1, 3, 4] t =
     Inr (tabulate [s0, s2, s1, s3, s4] (\<lambda>idx. get t [idx ! 0, idx ! 2, idx ! 1, idx ! 3, idx ! 4]))"
  by (simp add: permute_def assms upt_rec numeral_eq_Suc)

lemma ravel_merge_component:
  "ravel [B * Q, C, H, W] [b * Q + k, c, h, w] = ravel [B, Q, C, H, W] [b, k, c, h, w]"
  by (simp add: numel_def algebra_simps)

lemma valid_index4E:
  assumes "valid_index [s0, s1, s2, s3] idx"
  obtains b c i j where "idx = [b, c, i, j]" "b < s0" "c < s1" "i < s2" "j < s3"
  using assms by (auto simp: valid_index_Cons valid_index_Nil)

lemma valid_index5E:
  assumes "valid_index [s0, s1, s2, s3, s4] idx"
  obtains a b c i j where "idx = [a, b, c, i, j]" "a < s0" "b < s1" "c < s2" "i < s3" "j < s4"
  using assms by (auto simp: valid_index_Cons valid_index_Nil)

lemma select_component:
  assumes "shape x = [B, C, Q, H, W]" "k < Q"
  shows "select 2 k x = Inr (tabulate [B, C, H, W] (\<lambda>idx. get x [idx ! 0, idx ! 1, k, idx ! 2, idx ! 3]))"
proof -
  have "tabulate [B, C, H, W] (\<lambda>idx. get x (take 2 idx @ [k] @ drop 2 idx))
      = tabulate [B, C, H, W] (\<lambda>idx. get x [idx ! 0, idx ! 1, k, idx ! 2, idx ! 3])"
  proof (rule tabulate_cong)
    fix idx assume "valid_index [B, C, H, W] idx"
    then obtain b c i j where "idx = [b, c, i, j]" by (rule valid_index4E)
    then show "get x (take 2 idx @ [k] @ drop 2 idx) = get x [idx ! 0, idx ! 1, k, idx ! 2, idx ! 3]"
      by (simp add: numeral_eq_Suc)
  qed
  then show ?thesis using assms by (simp add: select_def numeral_eq_Suc)
qed


lemma get_reshape_merge:
  assumes "shape xp = [B, Q, C, H, W]" "k < Q"
  shows "get (xp\<lparr> shape := [B * Q, C, H, W] \<rparr>) [b * Q + k, c, h, w] = get xp [b, k, c, h, w]"
proof -
  have "get (xp\<lparr> shape := [B * Q, C, H, W] \<rparr>) [b * Q + k, c, h, w]
      = data xp ! ravel [B * Q, C, H, W] [b * Q + k, c, h, w]"
    by (simp add: get_def del: ravel.simps)
  also have "\<dots> = data xp ! ravel [B, Q, C, H, W] [b, k, c, h, w]"
    by (simp only: ravel_merge_component)
  also have "\<dots> = get xp [b, k, c, h, w]"
    by (simp add: get_def assms del: ravel.simps)
  finally show ?thesis .
qed

lemma get_view_split:
  assumes "shape t = [B * Q, C, H, W]"
  shows "get (t\<lparr> shape := [B, Q, C, H, W] \<rparr>) [b, k, c, h, w] = get t [b * Q + k, c, h, w]"
proof -
  have "get (t\<lparr> shape := [B, Q, C, H, W] \<rparr>) [b, k, c, h, w]
      = data t ! ravel [B, Q, C, H, W] [b, k, c, h, w]"
    by (simp add: get_def del: ravel.simps)
  also have "\<dots> = data t ! ravel [B * Q, C, H, W] [b * Q + k, c, h, w]"
    by (simp only: ravel_merge_component)
  also have "\<dots> = get t [b * Q + k, c, h, w]"
    by (simp add: get_def assms del: ravel.simps)
  finally show ?thesis .
qed

lemma plane_pooled_component:
  assumes sh: "shape x = [B, C, Q, H, W]" and k: "k < Q" and b: "b < B" and c: "c < C"
  shows "plane ((tabulate [B, Q, C, H, W] (\<lambda>idx. get x [idx ! 0, idx ! 2, idx ! 1, idx ! 3, idx ! 4]))
                  \<lparr> shape := [B * Q, C, H, W] \<rparr>) (b * Q + k) c
       = plane (tabulate [B, C, H, W] (\<lambda>idx. get x [idx ! 0, idx ! 1, k, idx ! 2, idx ! 3])) b c"
proof -
  let ?xp = "tabulate [B, Q, C, H, W] (\<lambda>idx. get x [idx ! 0, idx ! 2, idx ! 1, idx ! 3, idx ! 4])"
  let ?xs = "tabulate [B, C, H, W] (\<lambda>idx. get x [idx ! 0, idx ! 1, k, idx ! 2, idx ! 3])"
  have el: "get (?xp\<lparr> shape := [B * Q, C, H, W] \<rparr>) [b * Q + k, c, h, w] = get ?xs [b, c, h, w]"
    if "h < H" "w < W" for h w
  proof -
    have "get (?xp\<lparr> shape := [B * Q, C, H, W] \<rparr>) [b * Q + k, c, h, w] = get ?xp [b, k, c, h, w]"
      by (rule get_reshape_merge) (simp_all add: k)
    also have "\<dots> = get x [b, c, k, h, w]"
      using b c k that by (simp add: get_tabulate)
    also have "\<dots> = get ?xs [b, c, h, w]"
      using b c that by (simp add: get_tabulate)
    finally show ?thesis .
  qed
  show ?thesis
    unfolding plane_def using el by (simp cong: map_cong)
qed

lemma pool_per_component_select:
  assumes sh: "shape x = [B, C, 4, H, W]" and k: "k < 4"
  shows "bind_res (pool_per_component (pool2d out_size window) x) (select 2 k)
       = bind_res (select 2 k x) (pool2d out_size window)"
proof -
  let ?xp = "tabulate [B, 4, C, H, W] (\<lambda>idx. get x [idx ! 0, idx ! 2, idx ! 1, idx ! 3, idx ! 4])"
  let ?xr = "?xp\<lparr> shape := [B * 4, C, H, W] \<rparr>"
  let ?xs = "tabulate [B, C, H, W] (\<lambda>idx. get x [idx ! 0, idx ! 1, k, idx ! 2, idx ! 3])"
  have p1: "permute [0, 2, 1, 3, 4] x = Inr ?xp" by (rule permute_02134[OF sh])
  have r1: "reshape [B * 4, C, H, W] ?xp = Inr ?xr" by (simp add: reshape_def numel_def)
  have s1: "select 2 k x = Inr ?xs" by (rule select_component[OF sh k])
  have start: "pool_per_component (pool2d out_size window) x =
      bind_res (pool2d out_size window ?xr) (\<lambda>pooled.
              (case rev (shape pooled) of
                 W_out # H_out # _ \<Rightarrow>
                   bind_res (view [B, 4, C, H_out, W_out] pooled) (\<lambda>v.
                     permute [0, 2, 1, 3, 4] v)
               | _ \<Rightarrow> Inl ValueError))"
    by (simp add: pool_per_component_def sh p1 r1 del: One_nat_def)
  show ?thesis
  proof (cases "out_size C H W")
    case None
    then show ?thesis by (simp add: start s1 pool2d_def)
  next
    case (Some hw)
    obtain Ho Wo where hw: "hw = (Ho, Wo)" by (cases hw)
    let ?F = "\<lambda>idx. window (plane ?xr (idx ! 0) (idx ! 1)) (idx ! 2) (idx ! 3)"
    let ?pooled = "tabulate [B * 4, C, Ho, Wo] ?F"
    let ?v = "?pooled\<lparr> shape := [B, 4, C, Ho, Wo] \<rparr>"
    let ?out = "tabulate [B, C, 4, Ho, Wo] (\<lambda>idx. get ?v [idx ! 0, idx ! 2, idx ! 1, idx ! 3, idx ! 4])"
    have pl: "pool2d out_size window ?xr = Inr ?pooled"
      by (simp add: pool2d_def Some hw)
    have v1: "view [B, 4, C, Ho, Wo] ?pooled = Inr ?v" by (simp add: view_def numel_def)
    have p2: "permute [0, 2, 1, 3, 4] ?v = Inr ?out" by (rule permute_02134) simp
    have lhs: "pool_per_component (pool2d out_size window) x = Inr ?out"
      by (simp add: start pl v1 p2 del: One_nat_def)
    have s2: "select 2 k ?out = Inr (tabulate [B, C, Ho, Wo] (\<lambda>idx. get ?out [idx ! 0, idx ! 1, k, idx ! 2, idx ! 3]))"
      by (rule select_component[where Q = 4]) (simp_all add: k)
    have rhs: "pool2d out_size window ?xs
        = Inr (tabulate [B, C, Ho, Wo] (\<lambda>idx. window (plane ?xs (idx ! 0) (idx ! 1)) (idx ! 2) (idx ! 3)))"
      by (simp add: pool2d_def Some hw)
    have eq: "tabulate [B, C, Ho, Wo] (\<lambda>idx. get ?out [idx ! 0, idx ! 1, k, idx ! 2, idx ! 3])
        = tabulate [B, C, Ho, Wo] (\<lambda>idx. window (plane ?xs (idx ! 0) (idx ! 1)) (idx ! 2) (idx ! 3))"
    proof (rule tabulate_cong)
      fix idx assume "valid_index [B, C, Ho, Wo] idx"
      then obtain b c i j where idx: "idx = [b, c, i, j]" and b: "b < B" and c: "c < C"
        and i: "i < Ho" and j: "j < Wo" by (rule valid_index4E)
      have "get ?out [b, c, k, i, j] = get ?v [b, k, c, i, j]"
        using b c i j k by (simp add: get_tabulate)
      also have "\<dots> = get ?pooled [b * 4 + k, c, i, j]"
        by (rule get_view_split) simp
      also have "\<dots> = window (plane ?xr (b * 4 + k) c) i j"
      proof -
        have "b * 4 + k < B * 4" using b k by simp
        then have "valid_index [B * 4, C, Ho, Wo] [b * 4 + k, c, i, j]" using c i j by simp
        then show ?thesis by (simp add: get_tabulate)
      qed
      also have "plane ?xr (b * 4 + k) c = plane ?xs b c"
        by (rule plane_pooled_component[OF sh k b c])
      finally show "get ?out [idx ! 0, idx ! 1, k, idx ! 2, idx ! 3]
          = window (plane ?xs (idx ! 0) (idx ! 1)) (idx ! 2) (idx ! 3)"
        by (simp add: idx)
    qed
    show ?thesis unfolding lhs s1 bind_res_simps s2 rhs eq by (rule refl)
  qed
qed

lemma QuaternionAvgPool_forward_eq:
  "QuaternionAvgPool_forward m x = pool_per_component (QuaternionAvgPool_pool m) x"
  unfolding QuaternionAvgPool_forward_def pool_per_component_def QuaternionAvgPool_pool_def
  by (rule refl)

lemma QuaternionMaxPool_forward_eq:
  "QuaternionMaxPool_forward m x = pool_per_component (MaxPool2d_call (pool m)) x"
  unfolding QuaternionMaxPool_forward_def pool_per_component_def
  by (rule refl)

subsection \<open>The windows of an accepted input\<close>

text \<open>
  When the sizes are accepted, every window of average pooling lies inside the plane,
  and every window of max pooling holds at least one element of the plane.
\<close>

lemma pool_out_start:
  assumes "pool_out n k s pad = Some out" "i < out"
  shows "i * s + k \<le> n + 2 * pad"
proof -
  from assms(1) have ge: "k \<le> n + 2 * pad" and out: "out = (n + 2 * pad - k) div s + 1"
    by (auto simp: pool_out_def split: if_splits)
  from assms(2) out have "i \<le> (n + 2 * pad - k) div s" by simp
  then have "i * s \<le> (n + 2 * pad - k) div s * s" by (rule mult_le_mono1)
  also have "\<dots> \<le> n + 2 * pad - k" by simp
  finally show ?thesis using ge by simp
qed

lemma avg_window_in_range:
  assumes "pool_out n k s 0 = Some out" "i < out" "di < k"
  shows "i * s + di < n"
  using pool_out_start[OF assms(1,2)] assms(3) by simp

lemma max_window_nonempty:
  assumes "pool_out n k s pad = Some out" "i < out" "0 < k" "pad \<le> k div 2" "0 < n"
  shows "filter (\<lambda>r. pad \<le> r \<and> r < n + pad) [i * s ..< i * s + k] \<noteq> []"
proof -
  have pk: "pad < k" using assms(3,4) by (meson div_less_dividend le_less_trans one_less_numeral_iff semiring_norm(76))
  note st = pool_out_start[OF assms(1,2)]
  let ?r = "max (i * s) pad"
  have a: "?r \<in> set [i * s ..< i * s + k]" using pk assms(3) by auto
  have b: "pad \<le> ?r \<and> ?r < n + pad" using st pk assms(5) by auto
  have "\<exists>x \<in> set [i * s ..< i * s + k]. pad \<le> x \<and> x < n + pad"
    using a b by (rule bexI[rotated])
  then show ?thesis by (simp only: filter_empty_conv) blast
qed

section \<open>The assertion on the component axis\<close>

lemma pool_per_component_result:
  assumes sh: "shape x = [B, C, 4, H, W]"
  shows "out_size C H W = None \<Longrightarrow> pool_per_component (pool2d out_size window) x = Inl RuntimeError"
    and "out_size C H W = Some (Ho, Wo) \<Longrightarrow>
         \<exists>y. pool_per_component (pool2d out_size window) x = Inr y \<and> shape y = [B, C, 4, Ho, Wo]"
proof -
  let ?xp = "tabulate [B, 4, C, H, W] (\<lambda>idx. get x [idx ! 0, idx ! 2, idx ! 1, idx ! 3, idx ! 4])"
  let ?xr = "?xp\<lparr> shape := [B * 4, C, H, W] \<rparr>"
  have p1: "permute [0, 2, 1, 3, 4] x = Inr ?xp" by (rule permute_02134[OF sh])
  have r1: "reshape [B * 4, C, H, W] ?xp = Inr ?xr" by (simp add: reshape_def numel_def)
  have start: "pool_per_component (pool2d out_size window) x =
      bind_res (pool2d out_size window ?xr) (\<lambda>pooled.
              (case rev (shape pooled) of
                 W_out # H_out # _ \<Rightarrow>
                   bind_res (view [B, 4, C, H_out, W_out] pooled) (\<lambda>v.
                     permute [0, 2, 1, 3, 4] v)
               | _ \<Rightarrow> Inl ValueError))"
    by (simp add: pool_per_component_def sh p1 r1 del: One_nat_def)
  show "out_size C H W = None \<Longrightarrow> pool_per_component (pool2d out_size window) x = Inl RuntimeError"
    by (simp add: start pool2d_def)
  show "\<exists>y. pool_per_component (pool2d out_size window) x = Inr y \<and> shape y = [B, C, 4, Ho, Wo]"
    if some: "out_size C H W = Some (Ho, Wo)"
  proof -
    let ?F = "\<lambda>idx. window (plane ?xr (idx ! 0) (idx ! 1)) (idx ! 2) (idx ! 3)"
    let ?pooled = "tabulate [B * 4, C, Ho, Wo] ?F"
    let ?v = "?pooled\<lparr> shape := [B, 4, C, Ho, Wo] \<rparr>"
    let ?out = "tabulate [B, C, 4, Ho, Wo] (\<lambda>idx. get ?v [idx ! 0, idx ! 2, idx ! 1, idx ! 3, idx ! 4])"
    have pl: "pool2d out_size window ?xr = Inr ?pooled"
      by (simp add: pool2d_def some)
    have v1: "view [B, 4, C, Ho, Wo] ?pooled = Inr ?v" by (simp add: view_def numel_def)
    have p2: "permute [0, 2, 1, 3, 4] ?v = Inr ?out" by (rule permute_02134) simp
    have "pool_per_component (pool2d out_size window) x = Inr ?out"
      by (simp add: start pl v1 p2 del: One_nat_def)
    then show ?thesis by simp
  qed
qed

lemma pool_per_component_completes:
  assumes sh: "shape x = [B, C, 4, H, W]"
  shows "pool_per_component (pool2d out_size window) x \<noteq> Inl AssertionError
     \<and> ((\<exists>y. pool_per_component (pool2d out_size window) x = Inr y) \<longleftrightarrow> out_size C H W \<noteq> None)"
proof (cases "out_size C H W")
  case None
  from pool_per_component_result(1)[where out_size = out_size and window = window, OF sh None]
  show ?thesis by (simp add: None)
next
  case (Some hw)
  obtain Ho Wo where hw: "hw = (Ho, Wo)" by (cases hw)
  from pool_per_component_result(2)[where out_size = out_size and window = window
      and Ho = Ho and Wo = Wo, OF sh] Some hw
  show ?thesis by auto
qed

lemma pool_per_component_asserts:
  assumes "shape x = [B, C, Q, H, W]" "Q \<noteq> 4"
  shows "pool_per_component pool_fn x = Inl AssertionError"
  using assms by (simp add: pool_per_component_def)

lemma QuaternionAvgPool_pool_pool2d:
  "\<exists>out_size window. QuaternionAvgPool_pool m = pool2d out_size window
      \<and> (\<forall>C H W. (out_size C H W \<noteq> None) = QuaternionAvgPool_accepts m C H W)"
proof (cases "kernel_size m")
  case None
  have "QuaternionAvgPool_pool m = pool2d (adaptive_out_size (1, 1)) (adaptive_avg_window (1, 1))"
    by (rule ext) (simp add: QuaternionAvgPool_pool_def None adaptive_avg_pool2d_def)
  moreover have "\<forall>C H W. (adaptive_out_size (1, 1) C H W \<noteq> None) = QuaternionAvgPool_accepts m C H W"
    by (simp add: QuaternionAvgPool_accepts_def None)
  ultimately show ?thesis by blast
next
  case (Some k)
  let ?s = "case stride m of None \<Rightarrow> k | Some s \<Rightarrow> s"
  have "QuaternionAvgPool_pool m = pool2d (pool_out_size k ?s 0) (avg_window k ?s)"
    by (rule ext) (simp add: QuaternionAvgPool_pool_def Some avg_pool2d_def Let_def)
  moreover have "\<forall>C H W. (pool_out_size k ?s 0 C H W \<noteq> None) = QuaternionAvgPool_accepts m C H W"
    by (simp add: QuaternionAvgPool_accepts_def Some)
  ultimately show ?thesis by blast
qed

lemma MaxPool2d_call_pool2d:
  "MaxPool2d_call mp = pool2d (pool_out_size (pool_kernel_size mp) (pool_stride mp) (pool_padding mp))
       (max_window (pool_kernel_size mp) (pool_stride mp) (pool_padding mp))"
  by (rule ext) (simp add: MaxPool2d_call_def)

lemma dropout_asserts:
  assumes "shape x = [B, C, Q, H, W]" "Q \<noteq> 4" "training d" "p d \<noteq> 0"
  shows "QuaternionDropout_forward d u x = Inl AssertionError"
  using assms by (simp add: QuaternionDropout_forward_def)

lemma dropout_completes:
  assumes sh: "shape x = [B, C, 4, H, W]"
  shows "\<exists>y. QuaternionDropout_forward d u x = Inr y"
proof (cases "\<not> training d \<or> p d = 0")
  case True
  then show ?thesis by (auto simp add: QuaternionDropout_forward_def)
next
  case False
  let ?mask = "map_tensor (\<lambda>v. v > p d) (torch_rand u [B, C, H, W])"
  let ?mask1 = "?mask\<lparr> shape := [B, C, 1, H, W] \<rparr>"
  let ?mask5 = "tabulate [B, C, 4, H, W]
      (\<lambda>idx. get ?mask1 (map2 (\<lambda>i s. if s = 1 then 0 else i) idx [B, C, 1, H, W]))"
  have u1: "unsqueeze 2 ?mask = Inr ?mask1"
    by (simp add: unsqueeze_def map_tensor_def torch_rand_def del: One_nat_def)
  have e1: "expand [B, C, 4, H, W] ?mask1 = Inr ?mask5"
    by (simp add: expand_def del: One_nat_def)
  have z1: "\<exists>xm. zip_tensor (\<lambda>v keep. v * of_bool keep) x ?mask5 = Inr xm"
    by (simp add: zip_tensor_def sh)
  then obtain xm where z: "zip_tensor (\<lambda>v keep. v * of_bool keep) x ?mask5 = Inr xm" by blast
  have "QuaternionDropout_forward d u x = Inr (map_tensor (\<lambda>v. v / (1 - p d)) xm)"
    using False by (simp add: QuaternionDropout_forward_def sh Let_def u1 e1 z del: One_nat_def)
  then show ?thesis by blast
qed

section \<open>Pooling and the component axis\<close>

text \<open>
  C6. For an input of shape (B, C, 4, H, W) and a component \<open>k\<close> below 4, pooling the
  5D tensor with \<open>QuaternionAvgPool\<close> or \<open>QuaternionMaxPool\<close> and then taking
  component \<open>k\<close> gives what the module's 2D pooling call gives on the 4D slice of
  component \<open>k\<close>: the same tensor, or the same error when the pooling call rejects the
  plane size.
\<close>

theorem quaternion_pooling_commutes_with_component:
  assumes "shape x = [B, C, 4, H, W]" and "k < 4"
  shows "bind_res (QuaternionAvgPool_forward m x) (select 2 k)
           = bind_res (select 2 k x) (QuaternionAvgPool_pool m)
       \<and> bind_res (QuaternionMaxPool_forward mp x) (select 2 k)
           = bind_res (select 2 k x) (MaxPool2d_call (pool mp))"
proof -
  obtain out_size window where a: "QuaternionAvgPool_pool m = pool2d out_size window"
    using QuaternionAvgPool_pool_pool2d[of m] by blast
  have "bind_res (QuaternionAvgPool_forward m x) (select 2 k)
           = bind_res (select 2 k x) (QuaternionAvgPool_pool m)"
    unfolding QuaternionAvgPool_forward_eq a by (rule pool_per_component_select[OF assms])
  moreover have "bind_res (QuaternionMaxPool_forward mp x) (select 2 k)
           = bind_res (select 2 k x) (MaxPool2d_call (pool mp))"
    unfolding QuaternionMaxPool_forward_eq MaxPool2d_call_pool2d
    by (rule pool_per_component_select[OF assms])
  ultimately show ?thesis by blast
qed

theorem quaternion_pooling_commutes_with_component_witness:
  "shape (tabulate [1, 1, 4, 2, 2] (\<lambda>idx. real (idx ! 2 * 10 + idx ! 3 * 2 + idx ! 4))) = [1, 1, 4, 2, 2]
   \<and> (2 :: nat) < 4
   \<and> bind_res (QuaternionAvgPool_forward \<lparr> kernel_size = Some 2, stride = None \<rparr>
                 (tabulate [1, 1, 4, 2, 2] (\<lambda>idx. real (idx ! 2 * 10 + idx ! 3 * 2 + idx ! 4))))
        (select 2 2) = Inr \<lparr> shape = [1, 1, 1, 1], data = [21.5] \<rparr>
   \<and> bind_res (QuaternionMaxPool_forward (QuaternionMaxPool_init 2 2 0)
                 (tabulate [1, 1, 4, 2, 2] (\<lambda>idx. real (idx ! 2 * 10 + idx ! 3 * 2 + idx ! 4))))
        (select 2 2) = Inr \<lparr> shape = [1, 1, 1, 1], data = [23] \<rparr>"
proof -
  let ?x = "tabulate [1, 1, 4, 2, 2] (\<lambda>idx. real (idx ! 2 * 10 + idx ! 3 * 2 + idx ! 4))"
  have sh: "shape ?x = [1, 1, 4, 2, 2]" by simp
  have k: "(2 :: nat) < 4" by simp
  have a: "bind_res (select 2 2 ?x) (QuaternionAvgPool_pool \<lparr> kernel_size = Some 2, stride = None \<rparr>)
      = Inr \<lparr> shape = [1, 1, 1, 1], data = [21.5] \<rparr>"
    by code_simp
  have b: "bind_res (select 2 2 ?x) (MaxPool2d_call (pool (QuaternionMaxPool_init 2 2 0)))
      = Inr \<lparr> shape = [1, 1, 1, 1], data = [23] \<rparr>"
    by code_simp
  from quaternion_pooling_commutes_with_component[OF sh k,
      of "\<lparr> kernel_size = Some 2, stride = None \<rparr>" "QuaternionMaxPool_init 2 2 0"]
  show ?thesis unfolding a b using sh k by blast
qed

text \<open>
  C8 (as amended). On a 5D input whose component axis is not 4, both pooling modules
  and a dropout in training mode with a nonzero probability fail with the assertion
  error. On a 5D input whose component axis is 4, none of them raises the assertion
  error and dropout always returns a result, but a pooling module returns a result
  exactly when its 2D pooling call accepts the plane sizes (C, H, W), and otherwise
  fails with the runtime error of that call.
\<close>

theorem component_axis_assertion:
  "(shape x = [B, C, Q, H, W] \<and> Q \<noteq> 4 \<longrightarrow>
        QuaternionAvgPool_forward m x = Inl AssertionError
      \<and> QuaternionMaxPool_forward mp x = Inl AssertionError
      \<and> (training d \<and> p d \<noteq> 0 \<longrightarrow> QuaternionDropout_forward d u x = Inl AssertionError))
   \<and> (shape x = [B, C, 4, H, W] \<longrightarrow>
        QuaternionAvgPool_forward m x \<noteq> Inl AssertionError
      \<and> QuaternionMaxPool_forward mp x \<noteq> Inl AssertionError
      \<and> (\<exists>y. QuaternionDropout_forward d u x = Inr y)
      \<and> ((\<exists>y. QuaternionAvgPool_forward m x = Inr y) \<longleftrightarrow> QuaternionAvgPool_accepts m C H W)
      \<and> (\<not> QuaternionAvgPool_accepts m C H W \<longrightarrow> QuaternionAvgPool_forward m x = Inl RuntimeError)
      \<and> ((\<exists>y. QuaternionMaxPool_forward mp x = Inr y) \<longleftrightarrow> MaxPool2d_accepts (pool mp) C H W)
      \<and> (\<not> MaxPool2d_accepts (pool mp) C H W \<longrightarrow> QuaternionMaxPool_forward mp x = Inl RuntimeError))"
proof (intro conjI impI)
  assume a: "shape x = [B, C, Q, H, W] \<and> Q \<noteq> 4"
  then have sh: "shape x = [B, C, Q, H, W]" and q: "Q \<noteq> 4" by simp_all
  show "QuaternionAvgPool_forward m x = Inl AssertionError"
    unfolding QuaternionAvgPool_forward_eq by (rule pool_per_component_asserts[OF sh q])
  show "QuaternionMaxPool_forward mp x = Inl AssertionError"
    unfolding QuaternionMaxPool_forward_eq by (rule pool_per_component_asserts[OF sh q])
  show "QuaternionDropout_forward d u x = Inl AssertionError" if "training d \<and> p d \<noteq> 0"
    using that dropout_asserts[OF sh q, of d u] by blast
next
  assume sh: "shape x = [B, C, 4, H, W]"
  obtain out_size window where a: "QuaternionAvgPool_pool m = pool2d out_size window"
    and acc: "\<forall>C H W. (out_size C H W \<noteq> None) = QuaternionAvgPool_accepts m C H W"
    using QuaternionAvgPool_pool_pool2d[of m] by blast
  note ca = pool_per_component_completes[OF sh, of out_size window]
  note cm = pool_per_component_completes[OF sh,
      of "pool_out_size (pool_kernel_size (pool mp)) (pool_stride (pool mp)) (pool_padding (pool mp))"
         "max_window (pool_kernel_size (pool mp)) (pool_stride (pool mp)) (pool_padding (pool mp))"]
  show "QuaternionAvgPool_forward m x \<noteq> Inl AssertionError"
    unfolding QuaternionAvgPool_forward_eq a using ca by blast
  show "QuaternionMaxPool_forward mp x \<noteq> Inl AssertionError"
    unfolding QuaternionMaxPool_forward_eq MaxPool2d_call_pool2d using cm by blast
  show "\<exists>y. QuaternionDropout_forward d u x = Inr y" by (rule dropout_completes[OF sh])
  show "(\<exists>y. QuaternionAvgPool_forward m x = Inr y) \<longleftrightarrow> QuaternionAvgPool_accepts m C H W"
    unfolding QuaternionAvgPool_forward_eq a using ca acc by blast
  show "QuaternionAvgPool_forward m x = Inl RuntimeError" if "\<not> QuaternionAvgPool_accepts m C H W"
  proof -
    from that acc have "out_size C H W = None" by blast
    then show ?thesis unfolding QuaternionAvgPool_forward_eq a
      by (rule pool_per_component_result(1)[OF sh])
  qed
  show "(\<exists>y. QuaternionMaxPool_forward mp x = Inr y) \<longleftrightarrow> MaxPool2d_accepts (pool mp) C H W"
    unfolding QuaternionMaxPool_forward_eq MaxPool2d_call_pool2d MaxPool2d_accepts_def
    using cm by blast
  show "QuaternionMaxPool_forward mp x = Inl RuntimeError" if "\<not> MaxPool2d_accepts (pool mp) C H W"
  proof -
    from that have "pool_out_size (pool_kernel_size (pool mp)) (pool_stride (pool mp))
        (pool_padding (pool mp)) C H W = None"
      unfolding MaxPool2d_accepts_def by blast
    then show ?thesis unfolding QuaternionMaxPool_forward_eq MaxPool2d_call_pool2d
      by (rule pool_per_component_result(1)[OF sh])
  qed
qed

theorem component_axis_assertion_counterexample:
  "shape (tabulate [1, 1, 4, 1, 1] (\<lambda>_. 0 :: real)) = [1, 1, 4, 1, 1]
   \<and> QuaternionMaxPool_forward (QuaternionMaxPool_init 2 2 0) (tabulate [1, 1, 4, 1, 1] (\<lambda>_. 0))
       = Inl RuntimeError
   \<and> \<not> (\<exists>y. QuaternionMaxPool_forward (QuaternionMaxPool_init 2 2 0)
                 (tabulate [1, 1, 4, 1, 1] (\<lambda>_. 0)) = Inr y)"
proof -
  have "QuaternionMaxPool_forward (QuaternionMaxPool_init 2 2 0) (tabulate [1, 1, 4, 1, 1] (\<lambda>_. 0))
       = Inl RuntimeError"
    by code_simp
  then show ?thesis by simp
qed

theorem component_axis_assertion_witness:
  "shape (tabulate [1, 1, 3, 2, 2] (\<lambda>_. 1 :: real)) = [1, 1, 3, 2, 2] \<and> (3 :: nat) \<noteq> 4
   \<and> QuaternionAvgPool_forward \<lparr> kernel_size = None, stride = None \<rparr>
        (tabulate [1, 1, 3, 2, 2] (\<lambda>_. 1)) = Inl AssertionError
   \<and> QuaternionMaxPool_forward (QuaternionMaxPool_init 2 2 0)
        (tabulate [1, 1, 3, 2, 2] (\<lambda>_. 1)) = Inl AssertionError
   \<and> training \<lparr> training = True, p = 0.5 \<rparr> \<and> p \<lparr> training = True, p = 0.5 \<rparr> \<noteq> 0
   \<and> QuaternionDropout_forward \<lparr> training = True, p = 0.5 \<rparr> (\<lambda>_. 0.7)
        (tabulate [1, 1, 3, 2, 2] (\<lambda>_. 1)) = Inl AssertionError
   \<and> shape (tabulate [1, 1, 4, 2, 2] (\<lambda>_. 1 :: real)) = [1, 1, 4, 2, 2]
   \<and> MaxPool2d_accepts (pool (QuaternionMaxPool_init 2 2 0)) 1 2 2
   \<and> (\<exists>y. QuaternionMaxPool_forward (QuaternionMaxPool_init 2 2 0)
              (tabulate [1, 1, 4, 2, 2] (\<lambda>_. 1)) = Inr y)
   \<and> QuaternionAvgPool_accepts \<lparr> kernel_size = None, stride = None \<rparr> 1 2 2
   \<and> (\<exists>y. QuaternionAvgPool_forward \<lparr> kernel_size = None, stride = None \<rparr>
              (tabulate [1, 1, 4, 2, 2] (\<lambda>_. 1)) = Inr y)
   \<and> (\<exists>y. QuaternionDropout_forward \<lparr> training = True, p = 0.5 \<rparr> (\<lambda>_. 0.7)
              (tabulate [1, 1, 4, 2, 2] (\<lambda>_. 1)) = Inr y)"
proof -
  let ?x = "tabulate [1, 1, 3, 2, 2] (\<lambda>_. 1 :: real)"
  let ?x4 = "tabulate [1, 1, 4, 2, 2] (\<lambda>_. 1 :: real)"
  have sh: "shape ?x = [1, 1, 3, 2, 2] \<and> (3 :: nat) \<noteq> 4" by simp
  have d: "training \<lparr> training = True, p = 0.5 \<rparr> \<and> p \<lparr> training = True, p = 0.5 \<rparr> \<noteq> 0" by simp
  have sh4: "shape ?x4 = [1, 1, 4, 2, 2]" by simp
  have am: "MaxPool2d_accepts (pool (QuaternionMaxPool_init 2 2 0)) 1 2 2"
    by (simp add: MaxPool2d_accepts_def QuaternionMaxPool_init_def pool_out_size_def pool_out_def)
  have aa: "QuaternionAvgPool_accepts \<lparr> kernel_size = None, stride = None \<rparr> 1 2 2"
    by (simp add: QuaternionAvgPool_accepts_def adaptive_out_size_def)
  note t3 = component_axis_assertion[of ?x 1 1 3 2 2 "\<lparr> kernel_size = None, stride = None \<rparr>"
      "QuaternionMaxPool_init 2 2 0" "\<lparr> training = True, p = 0.5 \<rparr>" "\<lambda>_. 0.7"]
  note t4 = component_axis_assertion[of ?x4 1 1 4 2 2 "\<lparr> kernel_size = None, stride = None \<rparr>"
      "QuaternionMaxPool_init 2 2 0" "\<lparr> training = True, p = 0.5 \<rparr>" "\<lambda>_. 0.7"]
  from t3 sh d have a3: "QuaternionAvgPool_forward \<lparr> kernel_size = None, stride = None \<rparr> ?x = Inl AssertionError
      \<and> QuaternionMaxPool_forward (QuaternionMaxPool_init 2 2 0) ?x = Inl AssertionError
      \<and> QuaternionDropout_forward \<lparr> training = True, p = 0.5 \<rparr> (\<lambda>_. 0.7) ?x = Inl AssertionError"
    by blast
  from t4 sh4 am aa have a4: "(\<exists>y. QuaternionMaxPool_forward (QuaternionMaxPool_init 2 2 0) ?x4 = Inr y)
      \<and> (\<exists>y. QuaternionAvgPool_forward \<lparr> kernel_size = None, stride = None \<rparr> ?x4 = Inr y)
      \<and> (\<exists>y. QuaternionDropout_forward \<lparr> training = True, p = 0.5 \<rparr> (\<lambda>_. 0.7) ?x4 = Inr y)"
    by blast
  from sh d sh4 am aa a3 a4 show ?thesis by blast
qed

section \<open>The logits of the models\<close>

lemma QResNet34_real_components_mismatch:
  assumes "shape x = [B, nc * 4]" "0 < B" "nc \<noteq> NUM_CLASSES"
  shows "QResNet34_real_components x = Inl RuntimeError"
  using assms by (simp add: QResNet34_real_components_def view_def numel_def NUM_CLASSES_def)

lemma QResNet34_real_components_ten:
  assumes "shape x = [B, NUM_CLASSES * 4]"
  shows "\<exists>y. QResNet34_real_components x = Inr y \<and> shape y = [B, NUM_CLASSES]
           \<and> (\<forall>b<B. \<forall>c<NUM_CLASSES. get y [b, c] = get x [b, c * 4])"
proof -
  let ?v = "x\<lparr> shape := [B, NUM_CLASSES, 4] \<rparr>"
  let ?y = "tabulate [B, NUM_CLASSES] (\<lambda>idx. get ?v (take 2 idx @ [0] @ drop 2 idx))"
  have v: "view [B, NUM_CLASSES, 4] x = Inr ?v" by (simp add: view_def numel_def assms)
  have s: "select 2 0 ?v = Inr ?y" by (simp add: select_def numeral_eq_Suc)
  have r: "QResNet34_real_components x = Inr ?y"
    by (simp add: QResNet34_real_components_def assms v s)
  have "get ?y [b, c] = get x [b, c * 4]" if "b < B" "c < NUM_CLASSES" for b c
  proof -
    have "get ?y [b, c] = get ?v [b, c, 0]" using that by (simp add: get_tabulate)
    also have "\<dots> = get x [b, c * 4]" by (simp add: get_def assms numel_def algebra_simps)
    finally show ?thesis .
  qed
  with r show ?thesis by auto
qed

lemma QuaternionDenseNet_real_components_any:
  assumes "shape x = [B, nc * 4]" "0 < B"
  shows "\<exists>y. QuaternionDenseNet_real_components x = Inr y \<and> shape y = [B, nc]"
proof -
  have n: "numel (shape x) = B * 4 * nc" by (simp add: assms numel_def)
  have d: "numel (shape x) div (B * 4) = nc" "numel (shape x) mod (B * 4) = 0"
    unfolding n using assms(2) by simp_all
  let ?v = "x\<lparr> shape := [B, nc, 4] \<rparr>"
  have v: "view_infer B 4 x = Inr ?v"
    using assms(2) by (simp add: view_infer_def d view_def) (simp add: numel_def assms)
  have s: "\<exists>y. select 2 0 ?v = Inr y \<and> shape y = [B, nc]" by (simp add: select_def numeral_eq_Suc)
  then show ?thesis by (simp add: QuaternionDenseNet_real_components_def assms v)
qed

text \<open>
  C3. The classifier head of a model built for \<open>num_classes\<close> classes produces a tensor
  of shape (B, num_classes * 4). For a single sample and 5 classes, the final stage of
  \<open>QResNet34.forward\<close> fails: it views the output as (B, 10, 4), which has another
  number of elements. The last three statements of \<open>QuaternionDenseNet.forward\<close>, taken
  alone on a head output of that shape, return a tensor of shape (1, 5); nothing is
  stated here about the statements of that method before them.
\<close>

theorem QResNet34_forward_wrong_class_count:
  "QResNet34_real_components (tabulate [1, 5 * 4] f) = Inl RuntimeError
   \<and> (\<exists>y. QuaternionDenseNet_real_components (tabulate [1, 5 * 4] f) = Inr y \<and> shape y = [1, 5])"
proof -
  have sh: "shape (tabulate [1, 5 * 4] f) = [1, 5 * 4]" by simp
  have "QResNet34_real_components (tabulate [1, 5 * 4] f) = Inl RuntimeError"
    by (rule QResNet34_real_components_mismatch[OF sh]) (simp_all add: NUM_CLASSES_def)
  moreover have "\<exists>y. QuaternionDenseNet_real_components (tabulate [1, 5 * 4] f) = Inr y \<and> shape y = [1, 5]"
    by (rule QuaternionDenseNet_real_components_any[OF sh]) simp
  ultimately show ?thesis by blast
qed

section \<open>The multi-augmentation dataset\<close>

lemma getitem_train_ignores_state:
  "train ds \<Longrightarrow>
   MultiAugmentDataset_getitem env ds g1 index = MultiAugmentDataset_getitem env ds g2 index"
  by (simp add: MultiAugmentDataset_getitem_def)

lemma getitem_test_ignores_state:
  "\<not> train ds \<Longrightarrow>
   map_sum id fst (MultiAugmentDataset_getitem env ds g1 index)
     = map_sum id fst (MultiAugmentDataset_getitem env ds g2 index)"
  by (cases "py_getitem (dataset ds) index")
     (simp_all add: MultiAugmentDataset_getitem_def split: prod.splits)

lemma cutout_holes_one:
  assumes "0 < h" "0 < w" "randint env g h = (y, g1)" "randint env g1 w = (x, g2)"
  shows "cutout_holes env 1 len h w g mask_t =
     Inr (tabulate [h, w]
            (\<lambda>idx. if min (y - len div 2) h \<le> idx ! 0 \<and> idx ! 0 < min (y + len div 2) h
                       \<and> min (x - len div 2) w \<le> idx ! 1 \<and> idx ! 1 < min (x + len div 2) w
                    then 0 else get mask_t idx), g2)"
proof -
  have "cutout_hole env len h w g mask_t =
     Inr (tabulate [h, w]
            (\<lambda>idx. if min (y - len div 2) h \<le> idx ! 0 \<and> idx ! 0 < min (y + len div 2) h
                       \<and> min (x - len div 2) w \<le> idx ! 1 \<and> idx ! 1 < min (x + len div 2) w
                    then 0 else get mask_t idx), g2)"
    unfolding cutout_hole_def using assms by (simp add: Let_def)
  then show ?thesis unfolding One_nat_def by simp
qed

lemma expand_as_leading:
  assumes "shape m = [h, w]"
  shows "expand_as m (t\<lparr> shape := [C, h, w] \<rparr>) =
     Inr (tabulate [C, h, w] (\<lambda>idx. get (m\<lparr> shape := [1, h, w] \<rparr>)
            (map2 (\<lambda>i s. if s = 1 then 0 else i) idx [1, h, w])))"
  unfolding expand_as_def expand_def using assms by (simp del: One_nat_def)

lemma get_expanded_mask:
  assumes "shape m = [h, w]" "c < C" "r < h" "q < w"
  shows "get (tabulate [C, h, w] (\<lambda>idx. get (m\<lparr> shape := [1, h, w] \<rparr>)
            (map2 (\<lambda>i s. if s = 1 then 0 else i) idx [1, h, w]))) [c, r, q] = get m [r, q]"
proof -
  have v: "valid_index [C, h, w] [c, r, q]" using assms by simp
  have r: "(if h = 1 then 0 else r) = r" using assms by auto
  have q: "(if w = 1 then 0 else q) = q" using assms by auto
  show ?thesis
    unfolding get_tabulate[OF v]
    by (simp add: get_def assms(1) r q numel_def del: One_nat_def)
qed

lemma Cutout_call_one_hole:
  assumes sh: "shape t = [C, h, w]" and wf: "wf_tensor t" and h: "0 < h" and w: "0 < w"
    and ry: "randint env g h = (y, g1)" and rx: "randint env g1 w = (x, g2)"
  shows "\<exists>t'. Cutout_call env 1 len g t = Inr (t', g) \<and> shape t' = [C, h, w] \<and> wf_tensor t'
     \<and> (\<forall>c<C. \<forall>r<h. \<forall>q<w. get t' [c, r, q] =
          (if min (y - len div 2) h \<le> r \<and> r < min (y + len div 2) h
              \<and> min (x - len div 2) w \<le> q \<and> q < min (x + len div 2) w
           then 0 else get t [c, r, q]))"
proof -
  let ?ones = "tabulate [h, w] (\<lambda>_. 1 :: real)"
  let ?mask = "tabulate [h, w]
            (\<lambda>idx. if min (y - len div 2) h \<le> idx ! 0 \<and> idx ! 0 < min (y + len div 2) h
                       \<and> min (x - len div 2) w \<le> idx ! 1 \<and> idx ! 1 < min (x + len div 2) w
                    then 0 else get ?ones idx)"
  let ?mask3 = "tabulate [C, h, w] (\<lambda>idx. get (?mask\<lparr> shape := [1, h, w] \<rparr>)
            (map2 (\<lambda>i s. if s = 1 then 0 else i) idx [1, h, w]))"
  let ?res = "\<lparr> shape = [C, h, w], data = map2 (\<lambda>a b. a * b) (data t) (data ?mask3) \<rparr>"
  note ch = cutout_holes_one[OF h w ry rx, of len ?ones]
  have t: "t\<lparr> shape := [C, h, w] \<rparr> = t" using sh by simp
  have ea: "expand_as ?mask t = Inr ?mask3"
    using expand_as_leading[where m = ?mask and h = h and w = w and t = t and C = C]
    unfolding t by simp
  have z: "zip_tensor (\<lambda>a b. a * b) t ?mask3 = Inr ?res"
    by (simp add: zip_tensor_def sh)
  have call: "Cutout_call env 1 len g t = Inr (?res, g)"
    unfolding Cutout_call_def sh using ch ea z by (simp add: Let_def del: One_nat_def)
  have lt: "length (data t) = numel [C, h, w]" using wf sh by (simp add: wf_tensor_def)
  have lm: "length (data ?mask3) = numel [C, h, w]"
    by (simp add: tabulate_def length_all_indices)
  have wfr: "wf_tensor ?res" by (simp add: wf_tensor_def lt lm)
  have el: "\<forall>c<C. \<forall>r<h. \<forall>q<w. get ?res [c, r, q] =
          (if min (y - len div 2) h \<le> r \<and> r < min (y + len div 2) h
              \<and> min (x - len div 2) w \<le> q \<and> q < min (x + len div 2) w
           then 0 else get t [c, r, q])"
  proof (intro allI impI)
    fix c r q assume c: "c < C" and r: "r < h" and q: "q < w"
    have v: "valid_index [C, h, w] [c, r, q]" using c r q by simp
    have v2: "valid_index [h, w] [r, q]" using r q by simp
    note k = ravel_less[OF v]
    have e1: "get ?res [c, r, q] = get t [c, r, q] * get ?mask3 [c, r, q]"
      using k lt lm by (simp add: get_def sh del: ravel.simps)
    have e2: "get ?mask3 [c, r, q] = get ?mask [r, q]"
      by (rule get_expanded_mask) (use c r q in simp_all)
    have e3: "get ?mask [r, q] =
          (if min (y - len div 2) h \<le> r \<and> r < min (y + len div 2) h
              \<and> min (x - len div 2) w \<le> q \<and> q < min (x + len div 2) w
           then 0 else 1)"
      unfolding get_tabulate[OF v2] by simp
    show "get ?res [c, r, q] =
          (if min (y - len div 2) h \<le> r \<and> r < min (y + len div 2) h
              \<and> min (x - len div 2) w \<le> q \<and> q < min (x + len div 2) w
           then 0 else get t [c, r, q])"
      unfolding e1 e2 e3 by (simp only: mult_zero_right mult_1_right if_distrib[of "\<lambda>v. get t [c, r, q] * v"])
  qed
  from call wfr el show ?thesis by (intro exI[of _ ?res]) simp
qed

lemma getitem_train_sample:
  assumes "train ds" and "indices ds = Some ind"
    and "0 \<le> index" and "index < int (length ind)"
    and "ind ! nat index < length (dataset ds)"
    and "dataset ds ! (ind ! nat index) = (img, label)"
    and "0 < augmentations_per_image ds"
  shows "MultiAugmentDataset_getitem env ds g index =
     bind_res (if index mod int (augmentations_per_image ds) = 0
               then weak_transform env (manual_seed env index) img
               else strong_transform env (manual_seed env index) img)
       (\<lambda>(transformed, g1). Inr ((transformed, label), g1))"
proof -
  have a: "py_getitem ind index = Inr (ind ! nat index)"
    using assms(3,4) by (simp add: py_getitem_def Let_def)
  have b: "py_getitem (dataset ds) (int (ind ! nat index)) = Inr (img, label)"
    using assms(5,6) by (simp add: py_getitem_def Let_def)
  show ?thesis
    unfolding MultiAugmentDataset_getitem_def
    using assms(1,2,7) a b
    by (simp add: augmentation_policy_def Let_def)
qed

lemma weak_transform_steps:
  assumes "RandomCrop env g0 img = (i1, g1)" and "RandomHorizontalFlip env g1 i1 = (i2, g2)"
  shows "weak_transform env g0 img = Inr (Normalize env (ToTensor env i2), g2)"
  using assms by (simp add: weak_transform_def)

lemma strong_transform_steps:
  assumes "RandomCrop env g0 img = (i1, g1)" and "RandomHorizontalFlip env g1 i1 = (i2, g2)"
    and "AutoAugment env g2 i2 = (i3, g3)"
  shows "strong_transform env g0 img = Cutout_call env 1 16 g3 (Normalize env (ToTensor env i3))"
  using assms by (simp add: strong_transform_def)

text \<open>
  C9. In training mode \<open>__getitem__\<close> seeds the global generator from the augmented
  index itself and then runs the transform, so what it returns is fixed by the index.
  For an index in range of a training dataset with at least one augmentation per image
  and the base sample \<open>(img, label)\<close> at \<open>indices[index]\<close>: if the index is a multiple
  of \<open>augmentations_per_image\<close> the call returns the label with the normalised tensor of
  the crop and flip drawn from the state \<open>manual_seed index\<close>, and leaves the state after
  the flip; otherwise it returns the label with what \<open>Cutout\<close> makes of the normalised
  tensor of the crop, flip and AutoAugment drawn from the state \<open>manual_seed index\<close>. On
  an image tensor of shape (C, h, w) with \<open>h\<close> and \<open>w\<close> positive \<open>Cutout\<close> returns: the
  sample has the same shape, is 0 inside the square of side 16 around the centre drawn
  after AutoAugment (clamped to the image) and the normalised tensor elsewhere, and the
  generator is left in the state after AutoAugment. The result does not depend on the
  state of the generator at the time of the call: two calls with the same index on a
  dataset built from the same arguments return the same tensor and label (or raise the
  same error), whatever was drawn before, and for a training dataset they leave the
  generator in the same state.
\<close>

theorem MultiAugmentDataset_getitem_deterministic:
  assumes tr: "train ds" and ind: "indices ds = Some ind"
    and lo: "0 \<le> index" and hi: "index < int (length ind)"
    and ri: "ind ! nat index < length (dataset ds)"
    and smp: "dataset ds ! (ind ! nat index) = (img, label)"
    and k: "0 < augmentations_per_image ds"
    and crop: "RandomCrop env (manual_seed env index) img = (i1, g1)"
    and flip: "RandomHorizontalFlip env g1 i1 = (i2, g2)"
    and auto: "AutoAugment env g2 i2 = (i3, g3)"
  shows "(index mod int (augmentations_per_image ds) = 0 \<longrightarrow>
            MultiAugmentDataset_getitem env ds g index
              = Inr ((Normalize env (ToTensor env i2), label), g2))
       \<and> (index mod int (augmentations_per_image ds) \<noteq> 0 \<longrightarrow>
            MultiAugmentDataset_getitem env ds g index
              = (case Cutout_call env 1 16 g3 (Normalize env (ToTensor env i3)) of
                   Inl e \<Rightarrow> Inl e
                 | Inr (t, g4) \<Rightarrow> Inr ((t, label), g4)))
       \<and> (index mod int (augmentations_per_image ds) \<noteq> 0
            \<and> shape (Normalize env (ToTensor env i3)) = [C, h, w]
            \<and> wf_tensor (Normalize env (ToTensor env i3)) \<and> 0 < h \<and> 0 < w \<longrightarrow>
            (let (y, ga) = randint env g3 h; (x, gb) = randint env ga w
             in \<exists>t'. MultiAugmentDataset_getitem env ds g index = Inr ((t', label), g3)
                  \<and> shape t' = [C, h, w]
                  \<and> (\<forall>c<C. \<forall>r<h. \<forall>q<w. get t' [c, r, q] =
                        (if min (y - 16 div 2) h \<le> r \<and> r < min (y + 16 div 2) h
                            \<and> min (x - 16 div 2) w \<le> q \<and> q < min (x + 16 div 2) w
                         then 0 else get (Normalize env (ToTensor env i3)) [c, r, q]))))
       \<and> MultiAugmentDataset_getitem env ds g index = MultiAugmentDataset_getitem env ds g' index
       \<and> map_sum id fst (MultiAugmentDataset_getitem env
             (MultiAugmentDataset_init rng base augs is_train seed) gA idx)
           = map_sum id fst (MultiAugmentDataset_getitem env
             (MultiAugmentDataset_init rng base augs is_train seed) gB idx)
       \<and> MultiAugmentDataset_getitem env (MultiAugmentDataset_init rng base augs True seed) gA idx
           = MultiAugmentDataset_getitem env (MultiAugmentDataset_init rng base augs True seed) gB idx"
proof -
  note s = getitem_train_sample[OF tr ind lo hi ri smp k, of env]
  note wk = weak_transform_steps[OF crop flip]
  note sg = strong_transform_steps[OF crop flip auto]
  let ?t3 = "Normalize env (ToTensor env i3)"
  have weak: "index mod int (augmentations_per_image ds) = 0 \<longrightarrow>
            MultiAugmentDataset_getitem env ds g index
              = Inr ((Normalize env (ToTensor env i2), label), g2)"
    unfolding s[of g] wk by simp
  have strong: "index mod int (augmentations_per_image ds) \<noteq> 0 \<longrightarrow>
            MultiAugmentDataset_getitem env ds g index
              = (case Cutout_call env 1 16 g3 ?t3 of
                   Inl e \<Rightarrow> Inl e
                 | Inr (t, g4) \<Rightarrow> Inr ((t, label), g4))"
    unfolding s[of g] sg by (simp add: bind_res_def)
  have cut: "index mod int (augmentations_per_image ds) \<noteq> 0
            \<and> shape ?t3 = [C, h, w] \<and> wf_tensor ?t3 \<and> 0 < h \<and> 0 < w \<longrightarrow>
            (let (y, ga) = randint env g3 h; (x, gb) = randint env ga w
             in \<exists>t'. MultiAugmentDataset_getitem env ds g index = Inr ((t', label), g3)
                  \<and> shape t' = [C, h, w]
                  \<and> (\<forall>c<C. \<forall>r<h. \<forall>q<w. get t' [c, r, q] =
                        (if min (y - 16 div 2) h \<le> r \<and> r < min (y + 16 div 2) h
                            \<and> min (x - 16 div 2) w \<le> q \<and> q < min (x + 16 div 2) w
                         then 0 else get ?t3 [c, r, q])))"
  proof (intro impI)
    assume a: "index mod int (augmentations_per_image ds) \<noteq> 0
            \<and> shape ?t3 = [C, h, w] \<and> wf_tensor ?t3 \<and> 0 < h \<and> 0 < w"
    obtain y ga where ry: "randint env g3 h = (y, ga)" by (cases "randint env g3 h")
    obtain x gb where rx: "randint env ga w = (x, gb)" by (cases "randint env ga w")
    from a have sh: "shape ?t3 = [C, h, w]" and wf: "wf_tensor ?t3" and h: "0 < h" and w: "0 < w"
      and nz: "index mod int (augmentations_per_image ds) \<noteq> 0" by simp_all
    from Cutout_call_one_hole[OF sh wf h w ry rx, of 16] obtain t' where
      c: "Cutout_call env 1 16 g3 ?t3 = Inr (t', g3)" and sh': "shape t' = [C, h, w]"
      and el: "\<forall>c<C. \<forall>r<h. \<forall>q<w. get t' [c, r, q] =
          (if min (y - 16 div 2) h \<le> r \<and> r < min (y + 16 div 2) h
              \<and> min (x - 16 div 2) w \<le> q \<and> q < min (x + 16 div 2) w
           then 0 else get ?t3 [c, r, q])" by blast
    from strong nz c have r: "MultiAugmentDataset_getitem env ds g index = Inr ((t', label), g3)"
      by simp
    from r sh' el have "\<exists>t'. MultiAugmentDataset_getitem env ds g index = Inr ((t', label), g3)
                  \<and> shape t' = [C, h, w]
                  \<and> (\<forall>c<C. \<forall>r<h. \<forall>q<w. get t' [c, r, q] =
                        (if min (y - 16 div 2) h \<le> r \<and> r < min (y + 16 div 2) h
                            \<and> min (x - 16 div 2) w \<le> q \<and> q < min (x + 16 div 2) w
                         then 0 else get ?t3 [c, r, q]))" by blast
    then show "(let (y, ga) = randint env g3 h; (x, gb) = randint env ga w
             in \<exists>t'. MultiAugmentDataset_getitem env ds g index = Inr ((t', label), g3)
                  \<and> shape t' = [C, h, w]
                  \<and> (\<forall>c<C. \<forall>r<h. \<forall>q<w. get t' [c, r, q] =
                        (if min (y - 16 div 2) h \<le> r \<and> r < min (y + 16 div 2) h
                            \<and> min (x - 16 div 2) w \<le> q \<and> q < min (x + 16 div 2) w
                         then 0 else get ?t3 [c, r, q])))"
      unfolding ry rx Let_def prod.case .
  qed
  have same: "MultiAugmentDataset_getitem env ds g index = MultiAugmentDataset_getitem env ds g' index"
    by (rule getitem_train_ignores_state[OF tr])
  have t: "train (MultiAugmentDataset_init rng base augs True seed)"
    by (simp add: MultiAugmentDataset_init_def)
  note full = getitem_train_ignores_state[OF t, of env gA idx gB]
  have old: "map_sum id fst (MultiAugmentDataset_getitem env
             (MultiAugmentDataset_init rng base augs is_train seed) gA idx)
           = map_sum id fst (MultiAugmentDataset_getitem env
             (MultiAugmentDataset_init rng base augs is_train seed) gB idx)"
  proof (cases is_train)
    case True
    with full show ?thesis by simp
  next
    case False
    then have f: "\<not> train (MultiAugmentDataset_init rng base augs is_train seed)"
      by (simp add: MultiAugmentDataset_init_def)
    from getitem_test_ignores_state[OF f, of env gA idx gB] show ?thesis .
  qed
  from weak strong cut same old full show ?thesis by blast
qed

theorem MultiAugmentDataset_getitem_deterministic_witness:
  "MultiAugmentDataset_getitem
      \<lparr> manual_seed = nat,
        RandomCrop = (\<lambda>g img. (map_tensor (\<lambda>v. v + real g) img, g + 1)),
        RandomHorizontalFlip = (\<lambda>g img. (img, g + 1)),
        AutoAugment = (\<lambda>g img. (img, g + 1)),
        ToTensor = (\<lambda>img. img), Normalize = (\<lambda>t. t),
        randint = (\<lambda>g high. (g mod high, g + 1)) \<rparr>
      (MultiAugmentDataset_init (\<lambda>seed i. [0, 0, 0, 2] ! i)
         [(\<lparr> shape = [1, 1, 2], data = [10, 20] \<rparr>, 0 :: nat),
          (tabulate [1, 1, 18] (\<lambda>idx. real (idx ! 2)), 1)] 2 True 42)
      (7 :: nat) 2
     = Inr ((\<lparr> shape = [1, 1, 2], data = [12, 22] \<rparr>, 0), 4)
   \<and> (\<exists>t'. MultiAugmentDataset_getitem
      \<lparr> manual_seed = nat,
        RandomCrop = (\<lambda>g img. (map_tensor (\<lambda>v. v + real g) img, g + 1)),
        RandomHorizontalFlip = (\<lambda>g img. (img, g + 1)),
        AutoAugment = (\<lambda>g img. (img, g + 1)),
        ToTensor = (\<lambda>img. img), Normalize = (\<lambda>t. t),
        randint = (\<lambda>g high. (g mod high, g + 1)) \<rparr>
      (MultiAugmentDataset_init (\<lambda>seed i. [0, 0, 0, 2] ! i)
         [(\<lparr> shape = [1, 1, 2], data = [10, 20] \<rparr>, 0 :: nat),
          (tabulate [1, 1, 18] (\<lambda>idx. real (idx ! 2)), 1)] 2 True 42)
      (7 :: nat) 1
        = Inr ((t', 1), 4)
      \<and> shape t' = [1, 1, 18] \<and> get t' [0, 0, 12] = 0 \<and> get t' [0, 0, 13] = 14)"
proof -
  let ?env = "\<lparr> manual_seed = nat,
        RandomCrop = (\<lambda>g img. (map_tensor (\<lambda>v. v + real g) img, g + 1)),
        RandomHorizontalFlip = (\<lambda>g img. (img, g + 1)),
        AutoAugment = (\<lambda>g img. (img, g + 1)),
        ToTensor = (\<lambda>img. img), Normalize = (\<lambda>t. t),
        randint = (\<lambda>g high. (g mod high, g + 1)) \<rparr> :: (nat, real tensor) torch_env"
  let ?ta = "\<lparr> shape = [1, 1, 2], data = [10, 20] \<rparr> :: real tensor"
  let ?tb = "tabulate [1, 1, 18] (\<lambda>idx. real (idx ! 2))"
  let ?ds = "MultiAugmentDataset_init (\<lambda>seed i. [0, 0, 0, 2] ! i)
         [(?ta, 0 :: nat), (?tb, 1)] 2 True 42"
  let ?tb1 = "map_tensor (\<lambda>v. v + real (nat 1)) ?tb"
  have ind: "indices ?ds = Some [0, 1, 0, 1]"
    unfolding MultiAugmentDataset_init_def by (simp add: RandomState_shuffle_def) code_simp
  have tr: "train ?ds" by (simp add: MultiAugmentDataset_init_def)
  have k: "0 < augmentations_per_image ?ds" by (simp add: MultiAugmentDataset_init_def)
  have k2: "augmentations_per_image ?ds = 2" by (simp add: MultiAugmentDataset_init_def)
  have dsd: "dataset ?ds = [(?ta, 0), (?tb, 1)]" by (simp add: MultiAugmentDataset_init_def)
  have lo2: "(0 :: int) \<le> 2" and hi2: "(2 :: int) < int (length [0 :: nat, 1, 0, 1])" by simp_all
  have ri2: "[0 :: nat, 1, 0, 1] ! nat 2 < length (dataset ?ds)" unfolding dsd by simp
  have smp2: "dataset ?ds ! ([0 :: nat, 1, 0, 1] ! nat 2) = (?ta, 0)" unfolding dsd by simp
  have crop2: "RandomCrop ?env (manual_seed ?env 2) ?ta
      = (\<lparr> shape = [1, 1, 2], data = [12, 22] \<rparr>, 3)"
    by (simp add: map_tensor_def)
  have flip2: "RandomHorizontalFlip ?env 3 \<lparr> shape = [1, 1, 2], data = [12, 22] \<rparr>
      = (\<lparr> shape = [1, 1, 2], data = [12, 22] \<rparr>, 4)" by simp
  have auto2: "AutoAugment ?env 4 \<lparr> shape = [1, 1, 2], data = [12, 22] \<rparr>
      = (\<lparr> shape = [1, 1, 2], data = [12, 22] \<rparr>, 5)" by simp
  from MultiAugmentDataset_getitem_deterministic[OF tr ind lo2 hi2 ri2 smp2 k crop2 flip2 auto2,
      where g = 7]
  have "2 mod int (augmentations_per_image ?ds) = 0 \<longrightarrow>
        MultiAugmentDataset_getitem ?env ?ds 7 2
          = Inr ((Normalize ?env (ToTensor ?env \<lparr> shape = [1, 1, 2], data = [12, 22] \<rparr>), 0), 4)"
    by (rule conjunct1)
  then have weak: "MultiAugmentDataset_getitem ?env ?ds 7 2
      = Inr ((\<lparr> shape = [1, 1, 2], data = [12, 22] \<rparr>, 0), 4)"
    unfolding k2 by simp
  have lo1: "(0 :: int) \<le> 1" and hi1: "(1 :: int) < int (length [0 :: nat, 1, 0, 1])" by simp_all
  have ri1: "[0 :: nat, 1, 0, 1] ! nat 1 < length (dataset ?ds)" unfolding dsd by simp
  have smp1: "dataset ?ds ! ([0 :: nat, 1, 0, 1] ! nat 1) = (?tb, 1)" unfolding dsd by simp
  have crop1: "RandomCrop ?env (manual_seed ?env 1) ?tb = (?tb1, 2)" by simp
  have flip1: "RandomHorizontalFlip ?env 2 ?tb1 = (?tb1, 3)" by simp
  have auto1: "AutoAugment ?env 3 ?tb1 = (?tb1, 4)" by simp
  have sh1: "shape (Normalize ?env (ToTensor ?env ?tb1)) = [1, 1, 18]"
    by (simp add: map_tensor_def)
  have wf1: "wf_tensor (Normalize ?env (ToTensor ?env ?tb1))"
    using wf_tabulate[of "[1, 1, 18]" "\<lambda>idx. real (idx ! 2)"]
    by (simp add: wf_tensor_def map_tensor_def)
  have nz: "1 mod int (augmentations_per_image ?ds) \<noteq> 0" unfolding k2 by simp
  have v: "valid_index [1, 1, 18] [0, 0, 13]" by simp
  have g13: "get (Normalize ?env (ToTensor ?env ?tb1)) [0, 0, 13] = 14"
  proof -
    have "ravel (shape ?tb) [0, 0, 13] < length (data ?tb)"
      using ravel_less[OF v] by (simp add: tabulate_def length_all_indices)
    then show ?thesis
      using get_tabulate[OF v, of "\<lambda>idx. real (idx ! 2)"] by (simp add: get_map_tensor)
  qed
  note t1 = MultiAugmentDataset_getitem_deterministic[OF tr ind lo1 hi1 ri1 smp1 k crop1 flip1 auto1,
      where g = 7 and C = 1 and h = 1 and w = 18]
  from t1 have "1 mod int (augmentations_per_image ?ds) \<noteq> 0
            \<and> shape (Normalize ?env (ToTensor ?env ?tb1)) = [1, 1, 18]
            \<and> wf_tensor (Normalize ?env (ToTensor ?env ?tb1)) \<and> (0 :: nat) < 1 \<and> (0 :: nat) < 18 \<longrightarrow>
            (let (y, ga) = randint ?env 4 1; (x, gb) = randint ?env ga 18
             in \<exists>t'. MultiAugmentDataset_getitem ?env ?ds 7 1 = Inr ((t', 1), 4)
                  \<and> shape t' = [1, 1, 18]
                  \<and> (\<forall>c<1. \<forall>r<1. \<forall>q<18. get t' [c, r, q] =
                        (if min (y - 16 div 2) 1 \<le> r \<and> r < min (y + 16 div 2) 1
                            \<and> min (x - 16 div 2) 18 \<le> q \<and> q < min (x + 16 div 2) 18
                         then 0 else get (Normalize ?env (ToTensor ?env ?tb1)) [c, r, q])))"
    by blast
  with nz sh1 wf1 have "(let (y, ga) = randint ?env 4 1; (x, gb) = randint ?env ga 18
             in \<exists>t'. MultiAugmentDataset_getitem ?env ?ds 7 1 = Inr ((t', 1), 4)
                  \<and> shape t' = [1, 1, 18]
                  \<and> (\<forall>c<1. \<forall>r<1. \<forall>q<18. get t' [c, r, q] =
                        (if min (y - 16 div 2) 1 \<le> r \<and> r < min (y + 16 div 2) 1
                            \<and> min (x - 16 div 2) 18 \<le> q \<and> q < min (x + 16 div 2) 18
                         then 0 else get (Normalize ?env (ToTensor ?env ?tb1)) [c, r, q])))"
    by simp
  then obtain t' where r1: "MultiAugmentDataset_getitem ?env ?ds 7 1 = Inr ((t', 1), 4)"
    and s1: "shape t' = [1, 1, 18]"
    and el: "\<forall>c<1. \<forall>r<1. \<forall>q<18. get t' [c, r, q] =
               (if min (0 - 16 div 2) 1 \<le> r \<and> r < min (0 + 16 div 2) 1
                   \<and> min (5 - 16 div 2) 18 \<le> q \<and> q < min (5 + 16 div 2) (18 :: nat)
                then 0 else get (Normalize ?env (ToTensor ?env ?tb1)) [c, r, q])"
    by (auto simp: Let_def)
  from el have e12: "get t' [0, 0, 12] = 0" by simp
  from el have "get t' [0, 0, 13] = get (Normalize ?env (ToTensor ?env ?tb1)) [0, 0, 13]" by simp
  with g13 have e13: "get t' [0, 0, 13] = 14" by simp
  from weak r1 s1 e12 e13 show ?thesis by blast
qed

lemma Cutout_call_restores_state:
  assumes "Cutout_call env n_holes len g img = Inr (res, g')"
  shows "g' = g"
  using assms
  by (auto simp: Cutout_call_def Let_def bind_res_def split: list.splits sum.splits prod.splits)

text \<open>
  On a tensor with four dimensions \<open>Cutout\<close> still takes \<open>h\<close> and \<open>w\<close> from dimensions 1
  and 2, while \<open>expand_as\<close> matches the mask against the last two dimensions: the call
  returns when the sizes happen to agree and raises otherwise.
\<close>

lemma expand_as_rank4:
  assumes "shape m = [h, w]" and "shape t = [A, h, w, D]"
  shows "(\<exists>m4. expand_as m t = Inr m4 \<and> shape m4 = [A, h, w, D])
           \<longleftrightarrow> (h = w \<or> h = 1) \<and> (w = D \<or> w = 1)"
    and "expand_as m t = Inl RuntimeError \<longleftrightarrow> \<not> ((h = w \<or> h = 1) \<and> (w = D \<or> w = 1))"
  unfolding expand_as_def expand_def assms
  by (auto simp: numeral_eq_Suc simp del: One_nat_def)

lemma Cutout_call_rank4:
  assumes sh: "shape t = [A, h, w, D]" and h: "0 < h" and w: "0 < w"
  shows "(h = w \<or> h = 1) \<and> (w = D \<or> w = 1)
           \<Longrightarrow> \<exists>t'. Cutout_call env 1 len g t = Inr (t', g) \<and> shape t' = [A, h, w, D]"
    and "\<not> ((h = w \<or> h = 1) \<and> (w = D \<or> w = 1))
           \<Longrightarrow> Cutout_call env 1 len g t = Inl RuntimeError"
proof -
  obtain y g1 where ry: "randint env g h = (y, g1)" by (cases "randint env g h")
  obtain x g2 where rx: "randint env g1 w = (x, g2)" by (cases "randint env g1 w")
  let ?ones = "tabulate [h, w] (\<lambda>_. 1 :: real)"
  let ?mask = "tabulate [h, w]
            (\<lambda>idx. if min (y - len div 2) h \<le> idx ! 0 \<and> idx ! 0 < min (y + len div 2) h
                       \<and> min (x - len div 2) w \<le> idx ! 1 \<and> idx ! 1 < min (x + len div 2) w
                    then 0 else get ?ones idx)"
  note ch = cutout_holes_one[OF h w ry rx, of len ?ones]
  have ms: "shape ?mask = [h, w]" by simp
  note ea = expand_as_rank4[OF ms sh]
  have call: "Cutout_call env 1 len g t =
      bind_res (expand_as ?mask t) (\<lambda>mask3.
      bind_res (zip_tensor (\<lambda>a b. a * b) t mask3) (\<lambda>res. Inr (res, g)))"
    unfolding Cutout_call_def sh using ch by (simp add: Let_def del: One_nat_def)
  {
    assume "(h = w \<or> h = 1) \<and> (w = D \<or> w = 1)"
    with ea(1) obtain m4 where m4: "expand_as ?mask t = Inr m4" "shape m4 = [A, h, w, D]" by blast
    then show "\<exists>t'. Cutout_call env 1 len g t = Inr (t', g) \<and> shape t' = [A, h, w, D]"
      unfolding call by (simp add: zip_tensor_def sh)
  }
  {
    assume "\<not> ((h = w \<or> h = 1) \<and> (w = D \<or> w = 1))"
    with ea(2) have "expand_as ?mask t = Inl RuntimeError" by blast
    then show "Cutout_call env 1 len g t = Inl RuntimeError"
      unfolding call by simp
  }
qed

lemma Cutout_call_rank4_examples:
  "\<exists>t'. Cutout_call env 1 16 g (tabulate [1, 2, 2, 2] f) = Inr (t', g) \<and> shape t' = [1, 2, 2, 2]"
  "Cutout_call env 1 16 g (tabulate [1, 2, 3, 4] f) = Inl RuntimeError"
proof -
  show "\<exists>t'. Cutout_call env 1 16 g (tabulate [1, 2, 2, 2] f) = Inr (t', g) \<and> shape t' = [1, 2, 2, 2]"
    by (rule Cutout_call_rank4(1)[where A = 1 and h = 2 and w = 2 and D = 2]) simp_all
  show "Cutout_call env 1 16 g (tabulate [1, 2, 3, 4] f) = Inl RuntimeError"
    by (rule Cutout_call_rank4(2)[where A = 1 and h = 2 and w = 3 and D = 4]) simp_all
qed

lemma swap_mset: "i < length xs \<Longrightarrow> j < length xs \<Longrightarrow> mset (swap i j xs) = mset xs"
  unfolding swap_def by (rule mset_swap)

lemma swap_length [simp]: "length (swap i j xs) = length xs"
  by (simp add: swap_def)

lemma shuffle_down_mset:
  assumes "\<forall>i. draw i \<le> i" "n < length xs"
  shows "mset (shuffle_down draw n xs) = mset xs"
  using assms(2)
proof (induction n arbitrary: xs)
  case 0
  show ?case by simp
next
  case (Suc n)
  have d: "draw (Suc n) < length xs" using assms(1) Suc.prems by (meson le_less_trans)
  have "mset (shuffle_down draw n (swap (Suc n) (draw (Suc n)) xs)) = mset (swap (Suc n) (draw (Suc n)) xs)"
    by (rule Suc.IH) (use Suc.prems in simp)
  also have "\<dots> = mset xs" by (rule swap_mset[OF Suc.prems d])
  finally show ?case by simp
qed

lemma RandomState_shuffle_mset:
  assumes "\<forall>i. draw i \<le> i"
  shows "mset (RandomState_shuffle draw xs) = mset xs"
proof (cases xs)
  case Nil
  then show ?thesis by (simp add: RandomState_shuffle_def)
next
  case (Cons x rest)
  then have "length xs - 1 < length xs" by simp
  then show ?thesis unfolding RandomState_shuffle_def by (rule shuffle_down_mset[OF assms])
qed

lemma count_replicated_indices:
  "count (mset (concat (map (\<lambda>idx. replicate k idx) [0..<n]))) b = (if b < n then k else 0)"
  by (induction n) (auto simp: less_Suc_eq)

lemma length_positions:
  "length (filter (\<lambda>i. xs ! i = b) [0..<length xs]) = count (mset xs) b"
proof -
  have "length (filter (\<lambda>i. xs ! i = b) [0..<length xs])
      = length (map (nth xs) (filter ((\<lambda>x. x = b) \<circ> nth xs) [0..<length xs]))"
    by (simp add: comp_def)
  also have "\<dots> = length (filter (\<lambda>x. x = b) (map (nth xs) [0..<length xs]))"
    by (simp only: filter_map)
  also have "\<dots> = length (filter (\<lambda>x. x = b) xs)" by (simp only: map_nth)
  also have "\<dots> = count (mset xs) b"
    by (induction xs) auto
  finally show ?thesis .
qed

lemma training_dataset_counts:
  assumes "\<forall>i. rng seed i \<le> i"
  shows "MultiAugmentDataset_len (MultiAugmentDataset_init rng base augs True seed) = length base * augs
     \<and> (\<exists>ind. indices (MultiAugmentDataset_init rng base augs True seed) = Some ind
           \<and> length ind = length base * augs)
     \<and> (\<forall>b < length base.
           length (positions_of (MultiAugmentDataset_init rng base augs True seed) b) = augs)"
proof -
  let ?xs = "concat (map (\<lambda>idx. replicate augs idx) [0..<length base])"
  let ?ind = "RandomState_shuffle (rng seed) ?xs"
  have m: "mset ?ind = mset ?xs" by (rule RandomState_shuffle_mset[OF assms])
  have "length ?ind = length ?xs" using m by (metis size_mset)
  also have "\<dots> = length base * augs"
    by (simp add: length_concat comp_def sum_list_triv)
  finally have l: "length ?ind = length base * augs" .
  have i: "indices (MultiAugmentDataset_init rng base augs True seed) = Some ?ind"
    by (simp add: MultiAugmentDataset_init_def)
  have c: "length (positions_of (MultiAugmentDataset_init rng base augs True seed) b) = augs"
    if "b < length base" for b
    unfolding positions_of_def i using that
    by (simp only: option.case length_positions m count_replicated_indices if_True)
  show ?thesis using l i c
    by (simp add: MultiAugmentDataset_len_def MultiAugmentDataset_init_def)
qed

lemma policy_by_index:
  "augmentation_policy ds index = Weak \<longleftrightarrow> index mod int (augmentations_per_image ds) = 0"
  by (simp add: augmentation_policy_def)

text \<open>
  C2. For a base dataset of 10 samples, two augmentations per image and seed 42 (the
  draws of numpy's generator for this seed are listed by the position \<open>i\<close> they are
  drawn for), the shuffled index list serves base sample 1 at the augmented indices 7
  and 11, both with the strong policy, base sample 4 at 4 and 12, both with the weak
  policy, and base sample 2 first at 5 with the strong policy and then at 14 with the
  weak one: the first occurrence of a base sample is not the one that gets the weak
  policy.
\<close>

theorem MultiAugmentDataset_policy_after_shuffle:
  "indices (MultiAugmentDataset_init
       (\<lambda>seed i. [0, 1, 1, 1, 4, 5, 2, 3, 4, 7, 6, 2, 9, 6, 4, 12, 7, 10, 14, 6] ! i)
       (map sample [0..<10]) 2 True 42)
     = Some [0, 8, 7, 0, 4, 2, 5, 1, 9, 8, 6, 1, 4, 9, 2, 6, 3, 5, 7, 3]
   \<and> positions_of (MultiAugmentDataset_init
       (\<lambda>seed i. [0, 1, 1, 1, 4, 5, 2, 3, 4, 7, 6, 2, 9, 6, 4, 12, 7, 10, 14, 6] ! i)
       (map sample [0..<10]) 2 True 42) 1 = [7, 11]
   \<and> policies_of (MultiAugmentDataset_init
       (\<lambda>seed i. [0, 1, 1, 1, 4, 5, 2, 3, 4, 7, 6, 2, 9, 6, 4, 12, 7, 10, 14, 6] ! i)
       (map sample [0..<10]) 2 True 42) 1 = [Strong, Strong]
   \<and> positions_of (MultiAugmentDataset_init
       (\<lambda>seed i. [0, 1, 1, 1, 4, 5, 2, 3, 4, 7, 6, 2, 9, 6, 4, 12, 7, 10, 14, 6] ! i)
       (map sample [0..<10]) 2 True 42) 4 = [4, 12]
   \<and> policies_of (MultiAugmentDataset_init
       (\<lambda>seed i. [0, 1, 1, 1, 4, 5, 2, 3, 4, 7, 6, 2, 9, 6, 4, 12, 7, 10, 14, 6] ! i)
       (map sample [0..<10]) 2 True 42) 4 = [Weak, Weak]
   \<and> positions_of (MultiAugmentDataset_init
       (\<lambda>seed i. [0, 1, 1, 1, 4, 5, 2, 3, 4, 7, 6, 2, 9, 6, 4, 12, 7, 10, 14, 6] ! i)
       (map sample [0..<10]) 2 True 42) 2 = [5, 14]
   \<and> policies_of (MultiAugmentDataset_init
       (\<lambda>seed i. [0, 1, 1, 1, 4, 5, 2, 3, 4, 7, 6, 2, 9, 6, 4, 12, 7, 10, 14, 6] ! i)
       (map sample [0..<10]) 2 True 42) 2 = [Strong, Weak]"
proof -
  have ind: "indices (MultiAugmentDataset_init
       (\<lambda>seed i. [0, 1, 1, 1, 4, 5, 2, 3, 4, 7, 6, 2, 9, 6, 4, 12, 7, 10, 14, 6] ! i)
       (map sample [0..<10]) 2 True 42)
     = Some [0, 8, 7, 0, 4, 2, 5, 1, 9, 8, 6, 1, 4, 9, 2, 6, 3, 5, 7, 3]"
    unfolding MultiAugmentDataset_init_def by (simp add: RandomState_shuffle_def) code_simp
  show ?thesis unfolding positions_of_def policies_of_def ind augmentation_policy_def
    by (simp add: MultiAugmentDataset_init_def)
qed

end
